theory Spec2Isabelle
  imports Complex_Main "HOL-Library.Word" "HOL-Library.Log_Nat"
begin

section \<open>Python values used by \<open>predict.py\<close>\<close>

subsection \<open>Floats\<close>

text \<open>
  A Python \<open>float\<close> is an IEEE 754 binary64 number. A finite one is modelled by the
  rational it denotes; every arithmetic operation computes the exact result and rounds it
  to the nearest binary64 number, ties to the even significand (\<open>fl\<close>). The exponent is
  bounded below (subnormal numbers); overflow to infinity is not modelled, and
  \<open>binary64_range\<close> says that a value stays clear of it.
\<close>

definition pow2 :: "int \<Rightarrow> rat" where
  "pow2 e = (if 0 \<le> e then 2 ^ nat e else 1 / 2 ^ nat (- e))"

text \<open>\<open>round_half_even\<close> is the rounding of Python's one-argument \<open>round\<close> as well.\<close>

definition round_half_even :: "rat \<Rightarrow> int" where
  "round_half_even x =
     (let f = \<lfloor>x\<rfloor>; d = x - of_int f
      in if d < 1 / 2 then f
         else if 1 / 2 < d then f + 1
         else if even f then f else f + 1)"

text \<open>\<open>ilog2 x\<close> is the integer \<open>k\<close> with \<open>2 powi k \<le> x < 2 powi (k + 1)\<close>, for \<open>0 < x\<close>.\<close>

definition ilog2 :: "rat \<Rightarrow> int" where
  "ilog2 x = (if 1 \<le> x then bitlen \<lfloor>x\<rfloor> - 1 else - bitlen (\<lceil>1 / x\<rceil> - 1))"

text \<open>
  Rounding to a binary format with \<open>p\<close> significand bits whose smallest positive number
  is \<open>2 powi emin\<close>: binary64 has \<open>p = 53\<close> and \<open>emin = -1074\<close>, binary32 (numpy's
  \<open>float32\<close>) has \<open>p = 24\<close> and \<open>emin = -149\<close>.
\<close>

definition fl_exponent :: "nat \<Rightarrow> int \<Rightarrow> rat \<Rightarrow> int" where
  "fl_exponent p emin x = max (ilog2 \<bar>x\<bar> - (int p - 1)) emin"

definition fl_round :: "nat \<Rightarrow> int \<Rightarrow> rat \<Rightarrow> rat" where
  "fl_round p emin x =
     (if x = 0 then 0
      else of_int (round_half_even (x / pow2 (fl_exponent p emin x))) * pow2 (fl_exponent p emin x))"

definition fl :: "rat \<Rightarrow> rat" where
  "fl x = fl_round 53 (- 1074) x"

definition fl32 :: "rat \<Rightarrow> rat" where
  "fl32 x = fl_round 24 (- 149) x"

definition binary64_range :: "rat \<Rightarrow> bool" where
  "binary64_range x = (\<bar>x\<bar> < 2 ^ 1024)"

definition fadd :: "rat \<Rightarrow> rat \<Rightarrow> rat" where
  "fadd a b = fl (a + b)"

definition fsub :: "rat \<Rightarrow> rat \<Rightarrow> rat" where
  "fsub a b = fl (a - b)"

definition fmul :: "rat \<Rightarrow> rat \<Rightarrow> rat" where
  "fmul a b = fl (a * b)"

definition fdiv :: "rat \<Rightarrow> rat \<Rightarrow> rat" where
  "fdiv a b = fl (a / b)"

text \<open>A decimal literal of the source denotes the binary64 number nearest to it.\<close>

definition literal :: "rat \<Rightarrow> rat" where
  "literal q = fl q"

text \<open>\<open>float(n)\<close> and the implicit conversion of an \<open>int\<close> operand.\<close>

definition float_of_int :: "int \<Rightarrow> rat" where
  "float_of_int n = fl (of_int n)"

definition py_round :: "rat \<Rightarrow> int" where
  "py_round x = round_half_even x"

subsection \<open>Bytes and the entropy source\<close>

type_synonym byte = "8 word"

text \<open>
  \<open>int.from_bytes(bs, "big")\<close>: the first byte is the most significant one.
\<close>

fun from_bytes_big_acc :: "int \<Rightarrow> byte list \<Rightarrow> int" where
  "from_bytes_big_acc acc [] = acc"
| "from_bytes_big_acc acc (b # bs) = from_bytes_big_acc (acc * 256 + uint b) bs"

definition from_bytes_big :: "byte list \<Rightarrow> int" where
  "from_bytes_big bs = from_bytes_big_acc 0 bs"

text \<open>
  The operating system's entropy source is an unbounded supply of bytes; \<open>os.urandom(n)\<close>
  consumes the next \<open>n\<close> of them.
\<close>

type_synonym entropy = "nat \<Rightarrow> byte"

definition os_urandom :: "nat \<Rightarrow> entropy \<Rightarrow> byte list \<times> entropy" where
  "os_urandom n src = (map src [0..<n], \<lambda>k. src (k + n))"

section \<open>The scheduler table\<close>

datatype scheduler_class =
  DDIMScheduler
| DPMSolverMultistepScheduler
| EulerAncestralDiscreteScheduler
| EulerDiscreteScheduler
| PNDMScheduler

text \<open>
  \<open>SCHEDULERS\<close>, a dictionary, as a map. \<open>PNDMScheduler\<close> is not in the table: it stands
  for the scheduler the pretrained pipelines are loaded with.
\<close>

definition SCHEDULERS :: "string \<rightharpoonup> scheduler_class" where
  "SCHEDULERS =
     [''DDIM'' \<mapsto> DDIMScheduler,
      ''DPMSolverMultistep'' \<mapsto> DPMSolverMultistepScheduler,
      ''K_EULER_ANCESTRAL'' \<mapsto> EulerAncestralDiscreteScheduler,
      ''K_EULER'' \<mapsto> EulerDiscreteScheduler]"

definition SCHEDULERS_keys :: "string list" where
  "SCHEDULERS_keys = [''DDIM'', ''DPMSolverMultistep'', ''K_EULER_ANCESTRAL'', ''K_EULER'']"

section \<open>Errors\<close>

text \<open>
  Every exception that \<open>predict.py\<close> raises, or that a library call made by it can raise on
  the inputs modelled here, is a value. \<open>Exception\<close> is Python's base class with its
  message, the one the two \<open>raise\<close> statements of \<open>predict\<close> use; \<open>ValidationError\<close> is
  the rejection of a request by the serving framework, before \<open>predict\<close> runs.
\<close>

datatype py_error =
  ZeroDivisionError
| KeyError string
| TypeError
| FileNotFoundError string
| SameFileError string
| UnidentifiedImageError
| ValueError string
| Exception string
| PipelineError string
| ValidationError string

section \<open>Images, files and the object store\<close>

text \<open>
  A PIL image: its mode, its size and its pixels in row-major order, one list of band
  values per pixel.
\<close>

record image =
  mode :: string
  width :: nat
  height :: nat
  pixels :: "byte list list"

definition image_size :: "image \<Rightarrow> nat \<times> nat" where
  "image_size img = (width img, height img)"

text \<open>
  A file either decodes to an image (\<open>ImageFile\<close> holds what \<open>diffusers.utils.load_image\<close>
  reads from it) or does not.
\<close>

datatype file_content = ImageFile image | OtherFile

datatype pipe_name = Img2Img | Inpaint

datatype event =
  PrintSeed int
| SuperResolution nat
| Diffusion pipe_name
| Del string
| EmptyCache

record scheduler =
  sched_class :: scheduler_class
  config :: "(string \<times> string) list"

record pipeline =
  weights :: string
  safety_checker :: "string option"
  scheduler :: scheduler
  xformers :: bool

record esrgan_model =
  device :: string
  scale :: nat
  loaded_weights :: "string option"

record predictor =
  img2img_pipe :: pipeline
  inpaint_pipe :: pipeline
  ESRGAN_models :: "nat \<rightharpoonup> esrgan_model"

text \<open>
  Image objects live in a store and are referred to by their index in it, so that a copy
  and its original are told apart. \<open>trace\<close> records, in order, the model invocations and
  the cleanup statements executed.
\<close>

record world =
  files :: "string \<rightharpoonup> file_content"
  entropy :: entropy
  heap :: "image list"
  trace :: "event list"
  self :: predictor

definition alloc :: "image \<Rightarrow> world \<Rightarrow> nat \<times> world" where
  "alloc img w = (length (heap w), w\<lparr>heap := heap w @ [img]\<rparr>)"

definition deref :: "world \<Rightarrow> nat \<Rightarrow> image" where
  "deref w r = heap w ! r"

definition emit :: "event \<Rightarrow> world \<Rightarrow> world" where
  "emit e w = w\<lparr>trace := trace w @ [e]\<rparr>"

section \<open>Library calls\<close>

text \<open>
  What the libraries compute is not part of \<open>predict.py\<close>. The pixel values they produce,
  the colour conversions of OpenCV, the exposure fusion and the diffusion pipelines are
  parameters of the model, collected in \<open>libs\<close>; the sizes of the images they return are
  fixed by their interfaces and written out.
\<close>

record pipe_args =
  prompt_arg :: "string option"
  image_arg :: nat
  control_image_arg :: nat
  strength :: rat
  controlnet_conditioning_scale :: rat
  negative_prompt_arg :: string
  guidance_scale_arg :: rat
  generator :: int
  num_inference_steps :: int
  guess_mode_arg :: bool
  mask_image_arg :: "nat option"

record libs =
  convert_pixels :: "string \<Rightarrow> image \<Rightarrow> byte list list"
  lanczos_pixels :: "image \<Rightarrow> nat \<times> nat \<Rightarrow> byte list list"
  esrgan_pixels :: "esrgan_model \<Rightarrow> image \<Rightarrow> byte list list"
  bgr2hsv :: "byte list \<Rightarrow> byte list"
  hsv2bgr :: "byte list \<Rightarrow> byte list"
  merge_mertens :: "byte list list list \<Rightarrow> rat list list"
  from_pretrained :: "string \<Rightarrow> pipeline"
  run_pipeline :: "pipeline \<Rightarrow> pipe_args \<Rightarrow> image list \<Rightarrow> py_error + image list"

text \<open>\<open>Image.copy\<close>: a new image object with the same content.\<close>

definition pil_copy :: "nat \<Rightarrow> world \<Rightarrow> nat \<times> world" where
  "pil_copy r w = alloc (deref w r) w"

text \<open>\<open>Image.convert\<close>: a new image object of the given mode and the same size.\<close>

definition pil_convert :: "libs \<Rightarrow> nat \<Rightarrow> string \<Rightarrow> world \<Rightarrow> nat \<times> world" where
  "pil_convert L r m w =
     alloc \<lparr>mode = m, width = width (deref w r), height = height (deref w r),
            pixels = convert_pixels L m (deref w r)\<rparr> w"

text \<open>
  \<open>Image.resize\<close> with the Lanczos filter: a new image object of the requested size;
  PIL raises \<open>ValueError\<close> unless both requested dimensions are positive.
\<close>

definition pil_resize :: "libs \<Rightarrow> nat \<Rightarrow> int \<times> int \<Rightarrow> world \<Rightarrow> (py_error + nat) \<times> world" where
  "pil_resize L r sz w =
     (if fst sz \<le> 0 \<or> snd sz \<le> 0 then (Inl (ValueError ''height and width must be > 0''), w)
      else let (r', w') = alloc \<lparr>mode = mode (deref w r), width = nat (fst sz), height = nat (snd sz),
                                  pixels = lanczos_pixels L (deref w r) (nat (fst sz), nat (snd sz))\<rparr> w
           in (Inr r', w'))"

text \<open>
  \<open>RealESRGAN.predict\<close>: one run of the super-resolution network; the result is a new RGB
  image, the input enlarged by the model's scale.
\<close>

definition esrgan_predict :: "libs \<Rightarrow> esrgan_model \<Rightarrow> nat \<Rightarrow> world \<Rightarrow> nat \<times> world" where
  "esrgan_predict L model r w =
     alloc \<lparr>mode = ''RGB'', width = scale model * width (deref w r),
            height = scale model * height (deref w r),
            pixels = esrgan_pixels L model (deref w r)\<rparr>
       (emit (SuperResolution (scale model)) w)"

text \<open>\<open>shutil.copyfile\<close>.\<close>

definition copyfile :: "string \<Rightarrow> string \<Rightarrow> world \<Rightarrow> (py_error + unit) \<times> world" where
  "copyfile src dst w =
     (if src = dst then (Inl (SameFileError src), w)
      else case files w src of
             None \<Rightarrow> (Inl (FileNotFoundError src), w)
           | Some f \<Rightarrow> (Inr (), w\<lparr>files := (files w)(dst \<mapsto> f)\<rparr>))"

text \<open>\<open>diffusers.utils.load_image\<close>: decodes the file into a new RGB image object.\<close>

definition diffusers_load_image :: "libs \<Rightarrow> string \<Rightarrow> world \<Rightarrow> (py_error + nat) \<times> world" where
  "diffusers_load_image L path w =
     (case files w path of
        None \<Rightarrow> (Inl (FileNotFoundError path), w)
      | Some OtherFile \<Rightarrow> (Inl UnidentifiedImageError, w)
      | Some (ImageFile img) \<Rightarrow>
          let (r, w1) = alloc img w; (r', w2) = pil_convert L r ''RGB'' w1 in (Inr r', w2))"

text \<open>\<open>torch.Generator("cuda").manual_seed(seed)\<close>: a generator is its seed.\<close>

definition manual_seed :: "int \<Rightarrow> int" where
  "manual_seed s = s"

text \<open>\<open>cls.from_config(config)\<close>: a scheduler of class \<open>cls\<close> with the given configuration.\<close>

definition from_config :: "scheduler_class \<Rightarrow> (string \<times> string) list \<Rightarrow> scheduler" where
  "from_config cls cfg = \<lparr>sched_class = cls, config = cfg\<rparr>"

function string_of_nat :: "nat \<Rightarrow> string" where
  "string_of_nat n =
     (if n < 10 then [char_of (48 + n)]
      else string_of_nat (n div 10) @ [char_of (48 + n mod 10)])"
  by pat_completeness auto
termination
  by (relation "measure id") auto

declare string_of_nat.simps [simp del]


text \<open>\<open>Image.save\<close>: writes the image to the path.\<close>

definition pil_save :: "nat \<Rightarrow> string \<Rightarrow> world \<Rightarrow> world" where
  "pil_save r path w = w\<lparr>files := (files w)(path \<mapsto> ImageFile (deref w r))\<rparr>"

text \<open>numpy arrays of shape \<open>(rows, cols, 3)\<close> and element type \<open>uint8\<close>.\<close>

record ndarray =
  rows :: nat
  cols :: nat
  cells :: "byte list list"

definition np_clip :: "rat \<Rightarrow> rat \<Rightarrow> rat \<Rightarrow> rat" where
  "np_clip x lo hi = min (max x lo) hi"

text \<open>\<open>astype('uint8')\<close> of a float: truncation towards zero.\<close>

definition astype_uint8 :: "rat \<Rightarrow> byte" where
  "astype_uint8 x = word_of_int (if 0 \<le> x then \<lfloor>x\<rfloor> else \<lceil>x\<rceil>)"

section \<open>The predictor\<close>

definition SD15_WEIGHTS :: string where
  "SD15_WEIGHTS = ''weights''"

definition CONTROLNET_CACHE :: string where
  "CONTROLNET_CACHE = ''controlnet-cache''"

definition INPAINT_WEIGHTS :: string where
  "INPAINT_WEIGHTS = ''inpaint-cache''"

definition RealESRGAN :: "string \<Rightarrow> nat \<Rightarrow> esrgan_model" where
  "RealESRGAN dev sc = \<lparr>device = dev, scale = sc, loaded_weights = None\<rparr>"

definition load_weights :: "string \<Rightarrow> esrgan_model \<Rightarrow> esrgan_model" where
  "load_weights path m = m\<lparr>loaded_weights := Some path\<rparr>"

definition Predictor_setup :: "libs \<Rightarrow> predictor" where
  "Predictor_setup L =
     \<lparr>img2img_pipe = from_pretrained L SD15_WEIGHTS,
      inpaint_pipe = from_pretrained L INPAINT_WEIGHTS,
      ESRGAN_models =
        fold (\<lambda>sc models.
                models(sc \<mapsto> load_weights (''weights/RealESRGAN_x'' @ string_of_nat sc @ ''.pth'')
                                 (RealESRGAN ''cuda'' sc)))
             [2, 4] Map.empty\<rparr>"

definition resize_for_condition_image ::
    "libs \<Rightarrow> nat \<Rightarrow> string \<Rightarrow> world \<Rightarrow> (py_error + nat) \<times> world" where
  "resize_for_condition_image L input_image resolution w =
     (if resolution = ''original'' then
        (let (r, w') = pil_copy input_image w in (Inr r, w'))
      else
        let (img, w1) = pil_convert L input_image ''RGB'' w;
            (width, height) = image_size (deref w1 input_image)
        in if min height width = 0 then (Inl ZeroDivisionError, w1)
           else
             let scale_factor = fdiv (float_of_int 1024) (float_of_int (int (min height width)));
                 new_height =
                   py_round (fdiv (fmul (float_of_int (int height)) scale_factor) (float_of_int 64)) * 64;
                 new_width =
                   py_round (fdiv (fmul (float_of_int (int width)) scale_factor) (float_of_int 64)) * 64
             in case pil_resize L img (new_width, new_height) w1 of
                  (Inl e, w2) \<Rightarrow> (Inl e, w2)
                | (Inr img2, w2) \<Rightarrow>
                    if resolution = ''2048'' then
                      (case ESRGAN_models (self w2) 2 of
                         None \<Rightarrow> (Inl (KeyError ''2''), w2)
                       | Some model \<Rightarrow> (let (r, w3) = esrgan_predict L model img2 w2 in (Inr r, w3)))
                    else (Inr img2, w2))"

definition calculate_brightness_factors :: "rat \<Rightarrow> rat list" where
  "calculate_brightness_factors hdr_intensity =
     (let factors = replicate 9 1
      in if 0 < hdr_intensity
         then [fsub 1 (fmul (literal (9 / 10)) hdr_intensity),
               fsub 1 (fmul (literal (7 / 10)) hdr_intensity),
               fsub 1 (fmul (literal (45 / 100)) hdr_intensity),
               fsub 1 (fmul (literal (25 / 100)) hdr_intensity),
               1,
               fadd 1 (fmul (literal (2 / 10)) hdr_intensity),
               fadd 1 (fmul (literal (4 / 10)) hdr_intensity),
               fadd 1 (fmul (literal (6 / 10)) hdr_intensity),
               fadd 1 (fmul (literal (8 / 10)) hdr_intensity)]
         else factors)"

text \<open>\<open>cv2.COLOR_RGB2BGR\<close> and \<open>cv2.COLOR_BGR2RGB\<close> reverse the order of the three channels.\<close>

definition pil_to_cv :: "image \<Rightarrow> ndarray" where
  "pil_to_cv pil_image =
     \<lparr>rows = height pil_image, cols = width pil_image, cells = map rev (pixels pil_image)\<rparr>"

text \<open>
  The value channel is the third of an HSV pixel. \<open>v * factor\<close> is a product of binary64
  numbers.
\<close>

definition adjust_brightness :: "libs \<Rightarrow> ndarray \<Rightarrow> rat \<Rightarrow> ndarray" where
  "adjust_brightness L cv_image factor =
     (let hsv_image = map (bgr2hsv L) (cells cv_image);
          adjusted_hsv =
            map (\<lambda>px. px[2 := astype_uint8 (np_clip (fmul (of_int (uint (px ! 2))) factor) 0 255)])
                hsv_image
      in cv_image\<lparr>cells := map (hsv2bgr L) adjusted_hsv\<rparr>)"

text \<open>The fused image is a \<open>float32\<close> array; so is its product with 255.\<close>

definition create_hdr_effect :: "libs \<Rightarrow> nat \<Rightarrow> rat \<Rightarrow> world \<Rightarrow> nat \<times> world" where
  "create_hdr_effect L original_image hdr w =
     (let cv_original = pil_to_cv (deref w original_image);
          brightness_factors = calculate_brightness_factors hdr;
          images = map (adjust_brightness L cv_original) brightness_factors;
          hdr_image = merge_mertens L (map cells images);
          hdr_image_8bit = map (map (\<lambda>x. astype_uint8 (np_clip (fl32 (x * 255)) 0 255))) hdr_image
      in alloc \<lparr>mode = ''RGB'', width = cols cv_original, height = rows cv_original,
                pixels = map rev hdr_image_8bit\<rparr> w)"

definition load_image :: "libs \<Rightarrow> string option \<Rightarrow> world \<Rightarrow> (py_error + nat) \<times> world" where
  "load_image L path w =
     (case path of
        None \<Rightarrow> (Inl TypeError, w)
      | Some p \<Rightarrow>
          (case copyfile p ''/tmp/image.png'' w of
             (Inl e, w1) \<Rightarrow> (Inl e, w1)
           | (Inr _, w1) \<Rightarrow>
               (case diffusers_load_image L ''/tmp/image.png'' w1 of
                  (Inl e, w2) \<Rightarrow> (Inl e, w2)
                | (Inr r, w2) \<Rightarrow> (let (r', w3) = pil_convert L r ''RGB'' w2 in (Inr r', w3)))))"

subsection \<open>Requests\<close>

record request =
  prompt :: "string option"
  image_path :: "string option"
  mask_path :: "string option"
  resolution :: string
  resemblance :: rat
  creativity :: rat
  hdr :: rat
  scheduler_name :: string
  steps :: int
  guidance_scale :: rat
  seed :: "int option"
  negative_prompt :: string
  guess_mode :: bool


subsection \<open>\<open>predict\<close>\<close>

text \<open>Lines 185 to 187: the seed, drawn from the entropy source when the request has none.\<close>

definition resolve_seed :: "int option \<Rightarrow> entropy \<Rightarrow> int \<times> entropy" where
  "resolve_seed seed_in src =
     (case seed_in of
        None \<Rightarrow> (let (bs, src') = os_urandom 2 src in (from_bytes_big bs, src'))
      | Some s \<Rightarrow> (s, src))"

definition get_pipe :: "pipe_name \<Rightarrow> world \<Rightarrow> pipeline" where
  "get_pipe nm w = (case nm of Img2Img \<Rightarrow> img2img_pipe (self w) | Inpaint \<Rightarrow> inpaint_pipe (self w))"

definition set_pipe :: "pipe_name \<Rightarrow> pipeline \<Rightarrow> world \<Rightarrow> world" where
  "set_pipe nm p w =
     (case nm of
        Img2Img \<Rightarrow> w\<lparr>self := (self w)\<lparr>img2img_pipe := p\<rparr>\<rparr>
      | Inpaint \<Rightarrow> w\<lparr>self := (self w)\<lparr>inpaint_pipe := p\<rparr>\<rparr>)"

text \<open>Lines 206 to 215: the choice of the pipeline and the checks on the mask.\<close>

definition select_pipe ::
    "libs \<Rightarrow> request \<Rightarrow> nat \<Rightarrow> pipe_args \<Rightarrow> world \<Rightarrow> (py_error + pipe_name \<times> pipe_args) \<times> world" where
  "select_pipe L rq loaded_image args w =
     (case mask_path rq of
        None \<Rightarrow> (Inr (Img2Img, args), w)
      | Some m \<Rightarrow>
          (case load_image L (Some m) w of
             (Inl e, w1) \<Rightarrow> (Inl e, w1)
           | (Inr mask_image, w1) \<Rightarrow>
               if resolution rq \<noteq> ''original'' then
                 (Inl (Exception ''Can't upscale and inpaint at the same time''), w1)
               else if image_size (deref w1 mask_image) \<noteq> image_size (deref w1 loaded_image) then
                 (Inl (Exception ''Image and mask must have the same size''), w1)
               else (Inr (Inpaint, args\<lparr>mask_image_arg := Some mask_image\<rparr>), w1)))"

text \<open>Lines 217 to 219: the selected pipeline, an object shared by all requests, is changed.\<close>

definition configure_pipe :: "pipe_name \<Rightarrow> string \<Rightarrow> world \<Rightarrow> (py_error + unit) \<times> world" where
  "configure_pipe nm sched w =
     (let w1 = set_pipe nm ((get_pipe nm w)\<lparr>safety_checker := None\<rparr>) w
      in case SCHEDULERS sched of
           None \<Rightarrow> (Inl (KeyError sched), w1)
         | Some cls \<Rightarrow>
             (let pipe = get_pipe nm w1;
                  w2 = set_pipe nm (pipe\<lparr>scheduler := from_config cls (config (scheduler pipe))\<rparr>) w1;
                  w3 = set_pipe nm ((get_pipe nm w2)\<lparr>xformers := True\<rparr>) w2
              in (Inr (), w3)))"

fun alloc_all :: "image list \<Rightarrow> world \<Rightarrow> nat list \<times> world" where
  "alloc_all [] w = ([], w)"
| "alloc_all (img # imgs) w =
     (let (r, w1) = alloc img w; (rs, w2) = alloc_all imgs w1 in (r # rs, w2))"

text \<open>Line 220: one run of the selected diffusion pipeline.\<close>

definition call_pipe :: "libs \<Rightarrow> pipe_name \<Rightarrow> pipe_args \<Rightarrow> world \<Rightarrow> (py_error + nat list) \<times> world" where
  "call_pipe L nm args w =
     (let w1 = emit (Diffusion nm) w
      in case run_pipeline L (get_pipe nm w1) args (heap w1) of
           Inl e \<Rightarrow> (Inl e, w1)
         | Inr imgs \<Rightarrow> (let (rs, w2) = alloc_all imgs w1 in (Inr rs, w2)))"

text \<open>Lines 221 to 225: every sample is saved under its own path.\<close>

fun save_samples :: "nat \<Rightarrow> nat list \<Rightarrow> world \<Rightarrow> string list \<times> world" where
  "save_samples i [] w = ([], w)"
| "save_samples i (sample # rest) w =
     (let output_path = ''/tmp/out-'' @ string_of_nat i @ ''.png'';
          w1 = pil_save sample output_path w;
          (output_paths, w2) = save_samples (Suc i) rest w1
      in (output_path # output_paths, w2))"

text \<open>Lines 227 to 235.\<close>

definition cleanup :: "request \<Rightarrow> world \<Rightarrow> world" where
  "cleanup rq w =
     (let w1 = emit (Del ''generator'') w;
          w2 = emit (Del ''final_image'') w1;
          w3 = emit (Del ''control_image'') w2;
          w4 = emit (Del ''loaded_image'') w3;
          w5 = emit (Del ''outputs'') w4;
          w6 = (if mask_path rq \<noteq> None then emit (Del ''mask_image'') w5 else w5)
      in emit EmptyCache w6)"

definition predict :: "libs \<Rightarrow> request \<Rightarrow> world \<Rightarrow> (py_error + string list) \<times> world" where
  "predict L rq w0 =
     (let (seed', src') = resolve_seed (seed rq) (entropy w0);
          w1 = emit (PrintSeed seed') (w0\<lparr>entropy := src'\<rparr>);
          generator' = manual_seed seed'
      in case load_image L (image_path rq) w1 of
           (Inl e, w2) \<Rightarrow> (Inl e, w2)
         | (Inr loaded_image, w2) \<Rightarrow>
      (case resize_for_condition_image L loaded_image (resolution rq) w2 of
           (Inl e, w3) \<Rightarrow> (Inl e, w3)
         | (Inr control_image, w3) \<Rightarrow>
      (let (final_image, w4) = create_hdr_effect L control_image (hdr rq) w3;
           args = \<lparr>prompt_arg = prompt rq, image_arg = final_image,
                   control_image_arg = final_image, strength = creativity rq,
                   controlnet_conditioning_scale = resemblance rq,
                   negative_prompt_arg = negative_prompt rq,
                   guidance_scale_arg = guidance_scale rq, generator = generator',
                   num_inference_steps = steps rq, guess_mode_arg = guess_mode rq,
                   mask_image_arg = None\<rparr>
       in case select_pipe L rq loaded_image args w4 of
            (Inl e, w5) \<Rightarrow> (Inl e, w5)
          | (Inr (pipe, args'), w5) \<Rightarrow>
       (case configure_pipe pipe (scheduler_name rq) w5 of
            (Inl e, w6) \<Rightarrow> (Inl e, w6)
          | (Inr _, w6) \<Rightarrow>
       (case call_pipe L pipe args' w6 of
            (Inl e, w7) \<Rightarrow> (Inl e, w7)
          | (Inr outputs, w7) \<Rightarrow>
       (let (output_paths, w8) = save_samples 0 outputs w7
        in (Inr output_paths, cleanup rq w8)))))))"



text \<open>
  The size the specification gives for the conditioning image, written after its words:
  \<open>scale = 1024 / min(width, height)\<close> and \<open>round(dim * scale / 64) * 64\<close>, in Python's
  arithmetic (true division and products are binary64 operations).
\<close>

definition spec_dim :: "nat \<Rightarrow> nat \<Rightarrow> nat \<Rightarrow> int" where
  "spec_dim d w h = py_round (fdiv (fmul (of_nat d) (fdiv 1024 (of_nat (min w h)))) 64) * 64"


section \<open>A concrete instance\<close>

text \<open>
  Stand-ins for the libraries, a store, a file system and a request, on which the model
  is run. The stand-ins compute pixel values of the right shape and nothing more.
\<close>

definition example_libs :: libs where
  "example_libs =
     \<lparr>convert_pixels = (\<lambda>m img. map (\<lambda>px. case px of [l] \<Rightarrow> [l, l, l] | _ \<Rightarrow> take 3 px) (pixels img)),
      lanczos_pixels = (\<lambda>img sz. replicate (fst sz * snd sz) (hd (pixels img))),
      esrgan_pixels =
        (\<lambda>m img. replicate (scale m * width img * (scale m * height img)) (hd (pixels img))),
      bgr2hsv = (\<lambda>px. px),
      hsv2bgr = (\<lambda>px. px),
      merge_mertens = (\<lambda>imgs. map (map (\<lambda>v. fl32 (of_int (uint v) / 255))) (hd imgs)),
      from_pretrained =
        (\<lambda>dir. \<lparr>weights = dir, safety_checker = Some ''StableDiffusionSafetyChecker'',
                 scheduler = \<lparr>sched_class = PNDMScheduler,
                              config = [(''beta_schedule'', ''scaled_linear'')]\<rparr>,
                 xformers = False\<rparr>),
      run_pipeline = (\<lambda>pipe args store. Inr [store ! image_arg args])\<rparr>"

definition example_image :: image where
  "example_image = \<lparr>mode = ''RGB'', width = 2, height = 1, pixels = [[255, 0, 0], [0, 0, 255]]\<rparr>"

definition example_mask :: image where
  "example_mask = \<lparr>mode = ''L'', width = 1, height = 1, pixels = [[255]]\<rparr>"

definition example_world :: world where
  "example_world =
     \<lparr>files = [''/in/image.png'' \<mapsto> ImageFile example_image,
               ''/in/mask.png'' \<mapsto> ImageFile example_mask],
      entropy = (\<lambda>k. 7),
      heap = [example_image],
      trace = [],
      self = Predictor_setup example_libs\<rparr>"

definition example_request :: request where
  "example_request =
     \<lparr>prompt = Some ''a red bicycle'', image_path = Some ''/in/image.png'', mask_path = None,
      resolution = ''original'', resemblance = 3 / 4, creativity = 1 / 4, hdr = 0,
      scheduler_name = ''DDIM'', steps = 20, guidance_scale = 7, seed = Some 42,
      negative_prompt = ''lowres'', guess_mode = False\<rparr>"

section \<open>The seed\<close>

lemma resolve_seed_None:
  "fst (resolve_seed None src) = uint (src 0) * 256 + uint (src 1)"
  by (simp add: resolve_seed_def os_urandom_def from_bytes_big_def upt_rec numeral_2_eq_2)

lemma uint_byte_bounds: "0 \<le> uint (b :: byte)" "uint (b :: byte) \<le> 255"
proof -
  show "0 \<le> uint b" by simp
  have "uint b < 2 ^ LENGTH(8)" by (rule uint_bounded)
  then show "uint b \<le> 255" by simp
qed

lemma resolve_seed_onto:
  assumes "0 \<le> s" "s \<le> 65535"
  shows "\<exists>src. fst (resolve_seed None src) = s"
proof -
  define src :: entropy
    where "src = (\<lambda>k. if k = 0 then word_of_int (s div 256) else word_of_int (s mod 256))"
  have d: "0 \<le> s div 256" "s div 256 < 256" using assms by auto
  have "uint (word_of_int (s div 256) :: byte) = s div 256"
    using d by (simp add: uint_word_of_int)
  moreover have "uint (word_of_int (s mod 256) :: byte) = s mod 256"
    by (simp add: uint_word_of_int)
  ultimately have "fst (resolve_seed None src) = s"
    by (simp add: resolve_seed_None src_def)
  then show ?thesis by blast
qed

section \<open>Rounding\<close>

lemma pow2_pos: "0 < pow2 e"
  by (simp add: pow2_def)

lemma pow2_nat: "pow2 (int n) = 2 ^ n"
  by (simp add: pow2_def)

lemma pow2_neg_nat: "pow2 (- int n) = 1 / 2 ^ n"
  by (cases n) (simp_all add: pow2_def nat_add_distrib)

lemma pow2_eq_powi: "pow2 e = 2 powi e"
  by (simp add: pow2_def power_int_def field_simps)

lemma pow2_add: "pow2 (a + b) = pow2 a * pow2 b"
  by (simp add: pow2_eq_powi power_int_add)

lemma pow2_Suc: "pow2 (e + 1) = 2 * pow2 e"
  by (simp add: pow2_add) (simp add: pow2_def)

lemma pow2_mono: "a \<le> b \<Longrightarrow> pow2 a \<le> pow2 b"
  by (simp add: pow2_eq_powi power_int_increasing)

lemma pow2_less_cancel: "pow2 a < pow2 b \<Longrightarrow> a < b"
  using pow2_mono [of b a] by (cases "a < b") auto

lemma ilog2_bounds:
  assumes "0 < x"
  shows "pow2 (ilog2 x) \<le> x" and "x < pow2 (ilog2 x + 1)"
proof -
  have "pow2 (ilog2 x) \<le> x \<and> x < pow2 (ilog2 x + 1)"
  proof (cases "1 \<le> x")
    case True
    define f where "f = \<lfloor>x\<rfloor>"
    have f1: "1 \<le> f" using True by (simp add: f_def le_floor_iff)
    then have fpos: "0 < f" by simp
    define b where "b = nat (bitlen f - 1)"
    have bl: "1 \<le> bitlen f" using fpos bitlen_eq_zero_iff [of f] bitlen_nonneg [of f] by linarith
    then have bb: "bitlen f - 1 = int b" and nb: "nat (bitlen f) = Suc b"
      by (simp_all add: b_def nat_diff_distrib)
    have lo: "2 ^ b \<le> f" using bitlen_bounds [OF fpos] unfolding b_def by simp
    have hi: "f < 2 ^ Suc b" using bitlen_bounds [OF fpos] unfolding nb by simp
    have il: "ilog2 x = int b" using True bb by (simp add: ilog2_def f_def)
    have "(2::rat) ^ b = of_int (2 ^ b)" by simp
    also have "\<dots> \<le> of_int f" using lo by (simp only: of_int_le_iff)
    also have "\<dots> \<le> x" by (simp add: f_def)
    finally have A: "pow2 (ilog2 x) \<le> x" by (simp add: il pow2_nat)
    have "f + 1 \<le> 2 ^ Suc b" using hi by simp
    then have "(of_int (f + 1) :: rat) \<le> of_int (2 ^ Suc b)" by (simp only: of_int_le_iff)
    moreover have "x < of_int (f + 1)" unfolding f_def by linarith
    ultimately have "x < 2 ^ Suc b" by simp
    moreover have "pow2 (ilog2 x + 1) = 2 ^ Suc b"
      using pow2_nat [of "Suc b"] by (simp add: il add.commute)
    ultimately show ?thesis using A by simp
  next
    case False
    define y where "y = 1 / x"
    have y1: "1 < y" using False assms by (simp add: y_def)
    define c where "c = \<lceil>y\<rceil>"
    have c2: "2 \<le> c" using y1 by (simp add: c_def)
    then have cpos: "0 < c - 1" by simp
    define b where "b = nat (bitlen (c - 1) - 1)"
    have bl: "1 \<le> bitlen (c - 1)"
      using cpos bitlen_eq_zero_iff [of "c - 1"] bitlen_nonneg [of "c - 1"] by linarith
    then have bb: "bitlen (c - 1) = int (Suc b)" and nb: "nat (bitlen (c - 1)) = Suc b"
      by (simp_all add: b_def nat_diff_distrib)
    have lo: "2 ^ b \<le> c - 1" using bitlen_bounds [OF cpos] unfolding b_def by simp
    have hi: "c - 1 < 2 ^ Suc b" using bitlen_bounds [OF cpos] unfolding nb by simp
    have il: "ilog2 x = - int (Suc b)" using False bb by (simp add: ilog2_def c_def y_def)
    have "c \<le> 2 ^ Suc b" using hi by simp
    then have "(of_int c :: rat) \<le> of_int (2 ^ Suc b)" by (simp only: of_int_le_iff)
    moreover have "y \<le> of_int c" by (simp add: c_def)
    ultimately have "y \<le> 2 ^ Suc b" by simp
    then have "1 / 2 ^ Suc b \<le> 1 / y" using y1 by (simp add: frac_le)
    then have A: "pow2 (ilog2 x) \<le> x"
      unfolding il pow2_neg_nat by (simp add: y_def)
    have "(of_int (2 ^ b) :: rat) \<le> of_int (c - 1)" using lo by (simp only: of_int_le_iff)
    moreover have "of_int (c - 1) < y" unfolding c_def by linarith
    ultimately have "2 ^ b < y" by simp
    then have "1 / y < 1 / 2 ^ b" using y1 by (simp add: frac_less2)
    moreover have "pow2 (ilog2 x + 1) = 1 / 2 ^ b"
      using pow2_neg_nat [of b] by (simp add: il)
    ultimately show ?thesis using A by (simp add: y_def)
  qed
  then show "pow2 (ilog2 x) \<le> x" and "x < pow2 (ilog2 x + 1)" by simp_all
qed

lemma round_half_even_bounds:
  "x - 1 / 2 \<le> of_int (round_half_even x)" "of_int (round_half_even x) \<le> x + 1 / 2"
proof -
  have "of_int \<lfloor>x\<rfloor> \<le> x" "x < of_int \<lfloor>x\<rfloor> + 1" by linarith+
  then show "x - 1 / 2 \<le> of_int (round_half_even x)" "of_int (round_half_even x) \<le> x + 1 / 2"
    unfolding round_half_even_def Let_def by (simp_all; linarith)+
qed

lemma round_half_even_of_int: "round_half_even (of_int n) = n"
  by (simp add: round_half_even_def)


lemma ilog2_ge:
  assumes "0 < x" "pow2 k \<le> x"
  shows "k \<le> ilog2 x"
proof -
  have "pow2 k < pow2 (ilog2 x + 1)" using assms ilog2_bounds(2) [of x] by simp
  then have "k < ilog2 x + 1" by (rule pow2_less_cancel)
  then show ?thesis by simp
qed

lemma ilog2_less:
  assumes "0 < x" "x < pow2 k"
  shows "ilog2 x < k"
proof -
  have "pow2 (ilog2 x) < pow2 k" using assms ilog2_bounds(1) [of x] by simp
  then show ?thesis by (rule pow2_less_cancel)
qed

text \<open>The relative error of rounding a positive normal number.\<close>

lemma fl_error:
  assumes "pow2 (- 1022) \<le> x"
  shows "\<bar>fl x - x\<bar> \<le> x / 2 ^ 53"
proof -
  have xpos: "0 < x" using assms pow2_pos [of "- 1022"] by simp
  define k where "k = ilog2 x"
  have k: "- 1022 \<le> k" unfolding k_def using xpos assms by (rule ilog2_ge)
  define e where "e = k - 52"
  have e: "fl_exponent 53 (- 1074) x = e"
    using k xpos by (simp add: fl_exponent_def e_def k_def)
  define y where "y = x / pow2 e"
  have flx: "fl x = of_int (round_half_even y) * pow2 e"
    using xpos by (simp add: fl_def fl_round_def e y_def)
  have x: "x = y * pow2 e" using pow2_pos [of e] by (simp add: y_def)
  have "\<bar>of_int (round_half_even y) - y\<bar> \<le> 1 / 2"
    using round_half_even_bounds [of y] by (simp only: abs_le_iff) linarith
  then have "\<bar>of_int (round_half_even y) - y\<bar> * pow2 e \<le> 1 / 2 * pow2 e"
    using pow2_pos [of e] by (simp only: mult_le_cancel_right) simp
  moreover have "\<bar>fl x - x\<bar> = \<bar>of_int (round_half_even y) - y\<bar> * pow2 e"
  proof -
    have "(of_int (round_half_even y) - y) * pow2 e
            = of_int (round_half_even y) * pow2 e - y * pow2 e"
      by (simp add: algebra_simps)
    also have "\<dots> = fl x - x" using x flx by simp
    finally have "fl x - x = (of_int (round_half_even y) - y) * pow2 e" by simp
    then show ?thesis using pow2_pos [of e] by (simp add: abs_mult)
  qed
  moreover have "1 / 2 * pow2 e \<le> x / 2 ^ 53"
  proof -
    have "pow2 k = pow2 (e + 52)" by (simp add: e_def)
    also have "\<dots> = pow2 e * 2 ^ 52" using pow2_nat [of 52] by (simp only: pow2_add) simp
    finally have "pow2 e * 2 ^ 52 \<le> x" using ilog2_bounds(1) [OF xpos] by (simp add: k_def)
    then show ?thesis by (simp add: field_simps)
  qed
  ultimately show ?thesis by simp
qed

lemma fl_lower:
  assumes "pow2 (- 1022) \<le> x"
  shows "x * (1 - 1 / 2 ^ 53) \<le> fl x"
proof -
  have "- (x / 2 ^ 53) \<le> fl x - x"
    using fl_error [OF assms] by (simp only: abs_le_iff) linarith
  then have "x - x / 2 ^ 53 \<le> fl x" by linarith
  moreover have "x - x / 2 ^ 53 = x * (1 - 1 / 2 ^ 53)" by (simp only: right_diff_distrib) simp
  ultimately show ?thesis by simp
qed

lemma fl_upper:
  assumes "pow2 (- 1022) \<le> x"
  shows "fl x \<le> x * (1 + 1 / 2 ^ 53)"
proof -
  have "fl x - x \<le> x / 2 ^ 53"
    using fl_error [OF assms] by (simp only: abs_le_iff)
  then have "fl x \<le> x + x / 2 ^ 53" by linarith
  moreover have "x + x / 2 ^ 53 = x * (1 + 1 / 2 ^ 53)" by (simp only: distrib_left) simp
  ultimately show ?thesis by simp
qed

text \<open>Integers below \<open>2 ^ 53\<close> are binary64 numbers.\<close>

lemma fl_of_int:
  assumes "0 < n" "n < 2 ^ 53"
  shows "fl (of_int n) = of_int n"
proof -
  define x :: rat where "x = of_int n"
  have xpos: "0 < x" and x1: "1 \<le> x" using assms by (simp_all add: x_def)
  define k where "k = ilog2 x"
  have "pow2 0 \<le> x" using x1 by (simp add: pow2_def)
  then have k0: "0 \<le> k" unfolding k_def using xpos ilog2_ge by blast
  have "x < pow2 53" using assms pow2_nat [of 53] by (simp add: x_def)
  then have k53: "k < 53" unfolding k_def using xpos ilog2_less by blast
  define j where "j = nat (52 - k)"
  have e: "fl_exponent 53 (- 1074) x = - int j"
    using k0 k53 xpos by (simp add: fl_exponent_def k_def j_def)
  have "x / pow2 (- int j) = of_int (n * 2 ^ j)"
    by (simp add: pow2_neg_nat x_def)
  then have "round_half_even (x / pow2 (- int j)) = n * 2 ^ j"
    by (simp only: round_half_even_of_int)
  then have "fl x = of_int (n * 2 ^ j) * pow2 (- int j)"
    using xpos by (simp add: fl_def fl_round_def e)
  then show ?thesis by (simp add: pow2_neg_nat x_def)
qed

lemma float_of_int_exact: "0 < n \<Longrightarrow> n < 2 ^ 53 \<Longrightarrow> float_of_int n = of_int n"
  by (simp add: float_of_int_def fl_of_int)

lemma pow2_le_one: "e \<le> 0 \<Longrightarrow> pow2 e \<le> 1"
  using pow2_mono [of e 0] by (simp add: pow2_def)

lemma fl_ge_half:
  assumes "pow2 (- 1022) \<le> x"
  shows "x / 2 \<le> fl x"
proof -
  have xpos: "0 \<le> x" using assms pow2_pos [of "- 1022"] by simp
  have "x * (1 / 2) \<le> x * (1 - 1 / 2 ^ 53)"
    using xpos by (intro mult_left_mono) simp_all
  then show ?thesis using fl_lower [OF assms] by simp
qed

lemma fl_le_double:
  assumes "pow2 (- 1022) \<le> x"
  shows "fl x \<le> 2 * x"
proof -
  have xpos: "0 \<le> x" using assms pow2_pos [of "- 1022"] by simp
  have "x * (1 + 1 / 2 ^ 53) \<le> x * 2"
    using xpos by (intro mult_left_mono) simp_all
  then show ?thesis using fl_upper [OF assms] by simp
qed

lemma normal_ge: "pow2 (- 31) \<le> x \<Longrightarrow> pow2 (- 1022) \<le> x"
  using pow2_mono [of "- 1022" "- 31"] by simp

text \<open>The three rounded operations of line 75, on the dimensions of an image.\<close>

lemma resize_arith:
  fixes d m :: nat
  assumes m: "0 < m" and md: "m \<le> d" and d: "d < 2 ^ 31"
  defines "s \<equiv> fdiv 1024 (of_nat m)"
  defines "t \<equiv> fmul (of_nat d) s"
  defines "q \<equiv> fdiv t 64"
  shows "512 / of_nat m \<le> s" "s \<le> 2048" "256 \<le> t" "t \<le> 2 ^ 43" "2 \<le> q" "q \<le> 2 ^ 38"
    "2 \<le> py_round q"
proof -
  define M :: rat where "M = of_nat m"
  define D :: rat where "D = of_nat d"
  have M1: "1 \<le> M" and MD: "M \<le> D" and D31: "D < 2 ^ 31"
    using m md d unfolding M_def D_def
    by (simp, simp, metis of_nat_less_iff of_nat_numeral of_nat_power)
  have Mpos: "0 < M" using M1 by simp
  have p31: "pow2 (- 31) = 1 / 2 ^ 31" using pow2_neg_nat [of 31] by simp
  have "1 / 2 ^ 31 \<le> 1 / M" using M1 MD D31 by (simp add: field_simps)
  also have "\<dots> \<le> 1024 / M" using Mpos by (simp add: field_simps)
  finally have n1: "pow2 (- 1022) \<le> 1024 / M" by (intro normal_ge) (simp add: p31)
  have s_lo: "512 / M \<le> s" using fl_ge_half [OF n1] by (simp add: s_def fdiv_def M_def)
  have s_hi: "s \<le> 2048"
  proof -
    have "s \<le> 2 * (1024 / M)" using fl_le_double [OF n1] by (simp add: s_def fdiv_def M_def)
    also have "\<dots> \<le> 2048" using M1 by (simp add: field_simps)
    finally show ?thesis .
  qed
  have spos: "0 < s" using s_lo Mpos by (meson divide_pos_pos less_le_trans zero_less_numeral)
  have "512 = M * (512 / M)" using Mpos by simp
  also have "\<dots> \<le> D * (512 / M)" using MD Mpos by (intro mult_right_mono) simp_all
  also have "\<dots> \<le> D * s" using s_lo MD Mpos by (intro mult_left_mono) simp_all
  finally have p_lo: "512 \<le> D * s" .
  have Dpos: "0 < D" using Mpos MD by simp
  have "D * s \<le> 2 ^ 31 * 2048"
    using D31 s_hi Dpos spos by (intro mult_mono) simp_all
  then have p_hi: "D * s \<le> 2 ^ 42" by simp
  have n2: "pow2 (- 1022) \<le> D * s"
    using p_lo pow2_le_one [of "- 1022"] by simp
  have t_lo: "256 \<le> t" using fl_ge_half [OF n2] p_lo by (simp add: t_def fmul_def D_def)
  have t_hi: "t \<le> 2 ^ 43" using fl_le_double [OF n2] p_hi by (simp add: t_def fmul_def D_def)
  have n3: "pow2 (- 1022) \<le> t / 64"
    using t_lo pow2_le_one [of "- 1022"] by simp
  have q_lo: "2 \<le> q" using fl_ge_half [OF n3] t_lo by (simp add: q_def fdiv_def)
  have q_hi: "q \<le> 2 ^ 38" using fl_le_double [OF n3] t_hi by (simp add: q_def fdiv_def)
  have "q - 1 / 2 \<le> of_int (py_round q)"
    using round_half_even_bounds(1) [of q] by (simp add: py_round_def)
  then have "(1::rat) < of_int (py_round q)" using q_lo by linarith
  then have "1 < py_round q" by simp
  then have r: "2 \<le> py_round q" by simp
  show "512 / of_nat m \<le> s" "s \<le> 2048" "256 \<le> t" "t \<le> 2 ^ 43" "2 \<le> q" "q \<le> 2 ^ 38"
    "2 \<le> py_round q"
    using s_lo s_hi t_lo t_hi q_lo q_hi r by (simp_all add: M_def)
qed

lemma spec_dim_positive:
  assumes "0 < min w h" "min w h \<le> d" "d < 2 ^ 31"
  shows "128 \<le> spec_dim d w h" "64 dvd spec_dim d w h"
  using resize_arith(7) [OF assms] by (simp_all add: spec_dim_def)

section \<open>The conditioning image\<close>

lemma alloc_simps:
  "fst (alloc img w) = length (heap w)"
  "snd (alloc img w) = w\<lparr>heap := heap w @ [img]\<rparr>"
  by (simp_all add: alloc_def)

lemma deref_append:
  "r < length (heap w) \<Longrightarrow> deref (w\<lparr>heap := heap w @ xs\<rparr>) r = deref w r"
  by (simp add: deref_def nth_append)

lemma deref_new:
  "deref (w\<lparr>heap := heap w @ xs\<rparr>) (length (heap w) + i) = xs ! i"
  by (simp add: deref_def nth_append)

lemma source_dim:
  fixes d w h :: nat
  assumes "0 < min h w" "d < 2 ^ 31" "min h w < 2 ^ 31" "0 < d"
  shows "py_round (fdiv (fmul (float_of_int (int d))
            (fdiv (float_of_int 1024) (float_of_int (int (min h w))))) (float_of_int 64)) * 64
         = spec_dim d w h"
proof -
  have big: "(2::int) ^ 31 < 2 ^ 53" by simp
  have "int d < 2 ^ 31" using assms(2) by (metis of_nat_less_iff of_nat_numeral of_nat_power)
  then have d: "float_of_int (int d) = of_nat d"
    using assms(4) big by (simp add: float_of_int_exact)
  have "int (min h w) < 2 ^ 31" using assms(3) by (metis of_nat_less_iff of_nat_numeral of_nat_power)
  then have m: "float_of_int (int (min h w)) = of_nat (min h w)"
    using assms(1) big by (simp add: float_of_int_exact)
  have c: "float_of_int 1024 = 1024" "float_of_int 64 = 64"
    using float_of_int_exact [of 1024] float_of_int_exact [of 64] by simp_all
  show ?thesis by (simp only: d m c spec_dim_def min.commute [of w h])
qed

lemma resize_for_condition_image_scaled:
  fixes L :: libs
  assumes r: "r < length (heap w)"
    and pos: "0 < width (deref w r)" "0 < height (deref w r)"
    and bnd: "width (deref w r) < 2 ^ 31" "height (deref w r) < 2 ^ 31"
    and res: "res \<noteq> ''original''"
  defines "a \<equiv> deref w r"
  defines "nw \<equiv> nat (spec_dim (width a) (width a) (height a))"
  defines "nh \<equiv> nat (spec_dim (height a) (width a) (height a))"
  defines "conv \<equiv> \<lparr>mode = ''RGB'', width = width a, height = height a,
                     pixels = convert_pixels L ''RGB'' a\<rparr>"
  defines "resized \<equiv> \<lparr>mode = ''RGB'', width = nw, height = nh,
                        pixels = lanczos_pixels L conv (nw, nh)\<rparr>"
  shows "res \<noteq> ''2048'' \<Longrightarrow>
           resize_for_condition_image L r res w
             = (Inr (Suc (length (heap w))), w\<lparr>heap := heap w @ [conv, resized]\<rparr>)"
    and "res = ''2048'' \<Longrightarrow> ESRGAN_models (self w) 2 = Some model \<Longrightarrow>
           resize_for_condition_image L r res w
             = (Inr (Suc (Suc (length (heap w)))),
                w\<lparr>heap := heap w @ [conv, resized,
                       \<lparr>mode = ''RGB'', width = scale model * nw, height = scale model * nh,
                        pixels = esrgan_pixels L model resized\<rparr>],
                  trace := trace w @ [SuperResolution (scale model)]\<rparr>)"
    and "res = ''2048'' \<Longrightarrow> ESRGAN_models (self w) 2 = None \<Longrightarrow>
           fst (resize_for_condition_image L r res w) = Inl (KeyError ''2'')"
proof -
  have mpos: "0 < min (height a) (width a)" using pos by (simp add: a_def)
  have mb: "min (height a) (width a) < 2 ^ 31" using bnd by (simp add: a_def min_def)
  have m1: "min (width a) (height a) \<le> width a" "min (width a) (height a) \<le> height a" by simp_all
  have mpos': "0 < min (width a) (height a)" using pos by (simp add: a_def)
  have W: "py_round (fdiv (fmul (float_of_int (int (width a)))
            (fdiv (float_of_int 1024) (float_of_int (int (min (height a) (width a))))))
            (float_of_int 64)) * 64 = spec_dim (width a) (width a) (height a)"
    using source_dim [OF mpos _ mb] pos bnd by (simp add: a_def)
  have H: "py_round (fdiv (fmul (float_of_int (int (height a)))
            (fdiv (float_of_int 1024) (float_of_int (int (min (height a) (width a))))))
            (float_of_int 64)) * 64 = spec_dim (height a) (width a) (height a)"
    using source_dim [OF mpos _ mb] pos bnd by (simp add: a_def)
  have Wp: "0 < spec_dim (width a) (width a) (height a)"
    using spec_dim_positive(1) [OF mpos' m1(1)] bnd by (simp add: a_def)
  have Hp: "0 < spec_dim (height a) (width a) (height a)"
    using spec_dim_positive(1) [OF mpos' m1(2)] bnd by (simp add: a_def)
  have d1: "deref (w\<lparr>heap := heap w @ [conv]\<rparr>) r = a"
    using r deref_append [of r w "[conv]"] by (simp add: a_def)
  have d2: "deref (w\<lparr>heap := heap w @ [conv]\<rparr>) (length (heap w)) = conv"
    using deref_new [of w "[conv]" 0] by simp
  have conv: "pil_convert L r ''RGB'' w = (length (heap w), w\<lparr>heap := heap w @ [conv]\<rparr>)"
    by (simp add: pil_convert_def alloc_def conv_def a_def)
  have mc: "mode conv = ''RGB''" by (simp add: conv_def)
  have rz: "pil_resize L (length (heap w))
              (spec_dim (width a) (width a) (height a), spec_dim (height a) (width a) (height a))
              (w\<lparr>heap := heap w @ [conv]\<rparr>)
            = (Inr (Suc (length (heap w))), w\<lparr>heap := heap w @ [conv, resized]\<rparr>)"
    using Wp Hp mc by (simp add: pil_resize_def alloc_def d2 resized_def nw_def nh_def)
  have mne: "(min (height a) (width a) = 0) = False" using mpos by simp
  have core: "resize_for_condition_image L r res w =
      (if res = ''2048'' then
         (case ESRGAN_models (self w) 2 of
            None \<Rightarrow> (Inl (KeyError ''2''), w\<lparr>heap := heap w @ [conv, resized]\<rparr>)
          | Some model \<Rightarrow> (let (r', w3) = esrgan_predict L model (Suc (length (heap w)))
                                           (w\<lparr>heap := heap w @ [conv, resized]\<rparr>)
                           in (Inr r', w3)))
       else (Inr (Suc (length (heap w))), w\<lparr>heap := heap w @ [conv, resized]\<rparr>))"
    unfolding resize_for_condition_image_def
    using res by (simp add: conv image_size_def d1 W H rz Let_def mne del: min_less_iff_conj)
  show "res \<noteq> ''2048'' \<Longrightarrow>
           resize_for_condition_image L r res w
             = (Inr (Suc (length (heap w))), w\<lparr>heap := heap w @ [conv, resized]\<rparr>)"
    by (simp add: core)
  have d3: "deref (w\<lparr>heap := heap w @ [conv, resized]\<rparr>) (Suc (length (heap w))) = resized"
    using deref_new [of w "[conv, resized]" 1] by simp
  show "res = ''2048'' \<Longrightarrow> ESRGAN_models (self w) 2 = Some model \<Longrightarrow>
           resize_for_condition_image L r res w
             = (Inr (Suc (Suc (length (heap w)))),
                w\<lparr>heap := heap w @ [conv, resized,
                       \<lparr>mode = ''RGB'', width = scale model * nw, height = scale model * nh,
                        pixels = esrgan_pixels L model resized\<rparr>],
                  trace := trace w @ [SuperResolution (scale model)]\<rparr>)"
    using core by (simp add: esrgan_predict_def alloc_def emit_def deref_def nth_append resized_def)
  show "res = ''2048'' \<Longrightarrow> ESRGAN_models (self w) 2 = None \<Longrightarrow>
           fst (resize_for_condition_image L r res w) = Inl (KeyError ''2'')"
    using core by simp
qed


lemma string_of_nat_digits: "string_of_nat 0 = ''0''" "string_of_nat 2 = ''2''" "string_of_nat 4 = ''4''"
  by code_simp+


lemma setup_models:
  "ESRGAN_models (Predictor_setup L) 2
     = Some \<lparr>device = ''cuda'', scale = 2, loaded_weights = Some ''weights/RealESRGAN_x2.pth''\<rparr>"
  by (simp add: Predictor_setup_def RealESRGAN_def load_weights_def string_of_nat_digits)

lemma deref_last: "deref (w\<lparr>heap := heap w @ xs @ [x]\<rparr>) (length (heap w) + length xs) = x"
  by (simp add: deref_def nth_append)


lemma example_store:
  "heap example_world = [example_image]"
  "deref example_world 0 = example_image"
  "ESRGAN_models (self example_world) = ESRGAN_models (Predictor_setup example_libs)"
  by (simp_all add: example_world_def deref_def)





text \<open>
  C5. For the tier "original", \<open>resize_for_condition_image\<close> returns a new image object
  (a reference that was not in the store before, so not the input) whose content, size
  and pixels are those of the input; every image that was in the store, the input among
  them, is unchanged, and no model is run.
\<close>

theorem resize_original_is_copy:
  assumes "r < length (heap w)"
  shows "\<exists>r' w'. resize_for_condition_image L r ''original'' w = (Inr r', w')
      \<and> r' \<noteq> r \<and> length (heap w) \<le> r'
      \<and> deref w' r' = deref w r
      \<and> image_size (deref w' r') = image_size (deref w r)
      \<and> pixels (deref w' r') = pixels (deref w r)
      \<and> (\<forall>a<length (heap w). deref w' a = deref w a)
      \<and> trace w' = trace w \<and> files w' = files w \<and> self w' = self w"
  using assms
  by (simp add: resize_for_condition_image_def pil_copy_def alloc_def deref_def nth_append)

theorem resize_original_is_copy_witness:
  "\<exists>r' w'. resize_for_condition_image example_libs 0 ''original'' example_world = (Inr r', w')
      \<and> r' \<noteq> 0 \<and> deref w' r' = example_image \<and> deref w' 0 = example_image
      \<and> pixels (deref w' r') = [[255, 0, 0], [0, 0, 255]]"
proof -
  have h: "0 < length (heap example_world)" by (simp add: example_store)
  obtain r' w' where
    a: "resize_for_condition_image example_libs 0 ''original'' example_world = (Inr r', w')"
    and b: "r' \<noteq> 0" "deref w' r' = deref example_world 0"
      "\<forall>a<length (heap example_world). deref w' a = deref example_world a"
    using resize_original_is_copy [OF h, of example_libs] by blast
  have "deref w' 0 = example_image" using b(3) h by (simp add: example_store(2))
  moreover have "pixels (deref w' r') = [[255, 0, 0], [0, 0, 255]]"
    using b(2) by (simp add: example_store(2) example_image_def)
  ultimately show ?thesis using a b by (simp add: example_store(2))
qed

section \<open>The brightness factors\<close>




section \<open>Schedulers\<close>

lemma SCHEDULERS_some:
  "SCHEDULERS ''DDIM'' = Some DDIMScheduler"
  "SCHEDULERS ''DPMSolverMultistep'' = Some DPMSolverMultistepScheduler"
  "SCHEDULERS ''K_EULER_ANCESTRAL'' = Some EulerAncestralDiscreteScheduler"
  "SCHEDULERS ''K_EULER'' = Some EulerDiscreteScheduler"
  by (simp_all add: SCHEDULERS_def)

lemma SCHEDULERS_none:
  "name \<notin> set SCHEDULERS_keys \<Longrightarrow> SCHEDULERS name = None"
  by (simp add: SCHEDULERS_def SCHEDULERS_keys_def)

lemma SCHEDULERS_keys_set:
  "set SCHEDULERS_keys = {''DDIM'', ''DPMSolverMultistep'', ''K_EULER_ANCESTRAL'', ''K_EULER''}"
  by (simp add: SCHEDULERS_keys_def)

lemma SCHEDULERS_dom: "(SCHEDULERS name \<noteq> None) = (name \<in> set SCHEDULERS_keys)"
proof (cases "name \<in> set SCHEDULERS_keys")
  case True
  then consider "name = ''DDIM''" | "name = ''DPMSolverMultistep''" | "name = ''K_EULER_ANCESTRAL''"
    | "name = ''K_EULER''" unfolding SCHEDULERS_keys_set by blast
  then have "SCHEDULERS name \<noteq> None"
    by cases (simp_all only: SCHEDULERS_some option.distinct not_False_eq_True)
  then show ?thesis using True by simp
next
  case False
  then show ?thesis by (simp only: SCHEDULERS_none simp_thms)
qed



lemma get_set_pipe: "get_pipe nm (set_pipe nm p w) = p"
  by (cases nm) (simp_all add: get_pipe_def set_pipe_def)

lemma configure_pipe_Some:
  assumes "SCHEDULERS name = Some cls"
  shows "fst (configure_pipe nm name w) = Inr ()"
    and "scheduler (get_pipe nm (snd (configure_pipe nm name w)))
           = from_config cls (config (scheduler (get_pipe nm w)))"
    and "safety_checker (get_pipe nm (snd (configure_pipe nm name w))) = None"
    and "xformers (get_pipe nm (snd (configure_pipe nm name w)))"
  using assms by (simp_all add: configure_pipe_def Let_def get_set_pipe)







section \<open>What each step of \<open>predict\<close> adds to the trace\<close>

lemma trace_alloc: "trace (snd (alloc img w)) = trace w"
  by (simp add: alloc_def)

lemma trace_pil_convert: "trace (snd (pil_convert L r m w)) = trace w"
  by (simp add: pil_convert_def alloc_def)

lemma trace_pil_resize: "trace (snd (pil_resize L r sz w)) = trace w"
  by (simp add: pil_resize_def alloc_def Let_def split: prod.splits)

lemma trace_copyfile: "trace (snd (copyfile src dst w)) = trace w"
  by (simp add: copyfile_def split: option.splits)

lemma trace_diffusers_load_image: "trace (snd (diffusers_load_image L path w)) = trace w"
  by (simp add: diffusers_load_image_def pil_convert_def alloc_def Let_def
      split: option.splits file_content.splits prod.splits)

lemma trace_load_image: "trace (snd (load_image L path w)) = trace w"
proof (cases path)
  case None
  then show ?thesis by (simp add: load_image_def)
next
  case (Some p)
  obtain c w1 where c: "copyfile p ''/tmp/image.png'' w = (c, w1)" by (cases "copyfile p ''/tmp/image.png'' w")
  then have t1: "trace w1 = trace w" using trace_copyfile [of p "''/tmp/image.png''" w] by simp
  obtain d w2 where d: "diffusers_load_image L ''/tmp/image.png'' w1 = (d, w2)"
    by (cases "diffusers_load_image L ''/tmp/image.png'' w1")
  then have t2: "trace w2 = trace w" using trace_diffusers_load_image [of L "''/tmp/image.png''" w1] t1 by simp
  show ?thesis
    using Some c d t1 t2
    by (cases c; cases d) (simp_all add: load_image_def pil_convert_def alloc_def)
qed

lemma trace_esrgan_predict:
  "trace (snd (esrgan_predict L model r w)) = trace w @ [SuperResolution (scale model)]"
  by (simp add: esrgan_predict_def alloc_def emit_def)

lemma trace_resize:
  "\<exists>sr. trace (snd (resize_for_condition_image L r res w)) = trace w @ sr
        \<and> set sr \<subseteq> range SuperResolution"
proof (cases "res = ''original''")
  case True
  then show ?thesis by (simp add: resize_for_condition_image_def pil_copy_def alloc_def)
next
  case False
  obtain img w1 where c: "pil_convert L r ''RGB'' w = (img, w1)" by (cases "pil_convert L r ''RGB'' w")
  then have t1: "trace w1 = trace w" using trace_pil_convert [of L r "''RGB''" w] by simp
  show ?thesis
  proof (cases "min (height (deref w1 r)) (width (deref w1 r)) = 0")
    case True
    then show ?thesis using False c t1
      by (simp add: resize_for_condition_image_def image_size_def)
  next
    case nz: False
    define sz where "sz = (let scale_factor = fdiv (float_of_int 1024)
          (float_of_int (int (min (height (deref w1 r)) (width (deref w1 r)))))
        in (py_round (fdiv (fmul (float_of_int (int (width (deref w1 r)))) scale_factor) (float_of_int 64)) * 64,
            py_round (fdiv (fmul (float_of_int (int (height (deref w1 r)))) scale_factor) (float_of_int 64)) * 64))"
    obtain z w2 where z: "pil_resize L img sz w1 = (z, w2)" by (cases "pil_resize L img sz w1")
    then have t2: "trace w2 = trace w" using trace_pil_resize [of L img sz w1] t1 by simp
    have core: "resize_for_condition_image L r res w =
      (case z of Inl e \<Rightarrow> (Inl e, w2)
       | Inr img2 \<Rightarrow>
          if res = ''2048'' then
            (case ESRGAN_models (self w2) 2 of
               None \<Rightarrow> (Inl (KeyError ''2''), w2)
             | Some model \<Rightarrow> (let (r', w3) = esrgan_predict L model img2 w2 in (Inr r', w3)))
          else (Inr img2, w2))"
    proof -
      have nz': "(min (height (deref w1 r)) (width (deref w1 r)) = 0) = False" using nz by simp
      show ?thesis
        using False c z
        by (simp add: resize_for_condition_image_def image_size_def Let_def sz_def nz'
            split: sum.splits)
    qed
    show ?thesis
    proof (cases z)
      case (Inl e)
      then show ?thesis using core t2 by simp
    next
      case (Inr img2)
      show ?thesis
      proof (cases "res = ''2048''")
        case r2: True
        show ?thesis
        proof (cases "ESRGAN_models (self w2) 2")
          case None
          then show ?thesis using core t2 Inr r2 by simp
        next
          case (Some model)
          have "trace (snd (resize_for_condition_image L r res w))
              = trace w @ [SuperResolution (scale model)]"
            using core Inr r2 Some t2 trace_esrgan_predict [of L model img2 w2]
            by (simp add: split_beta)
          then show ?thesis by auto
        qed
      next
        case False
        then show ?thesis using core t2 Inr by simp
      qed
    qed
  qed
qed

lemma trace_create_hdr_effect: "trace (snd (create_hdr_effect L r h w)) = trace w"
  by (simp add: create_hdr_effect_def alloc_def Let_def)

lemma trace_select_pipe: "trace (snd (select_pipe L rq r args w)) = trace w"
proof (cases "mask_path rq")
  case None
  then show ?thesis by (simp add: select_pipe_def)
next
  case (Some m)
  obtain c w1 where c: "load_image L (Some m) w = (c, w1)" by (cases "load_image L (Some m) w")
  then have "trace w1 = trace w" using trace_load_image [of L "Some m" w] by simp
  then show ?thesis using Some c by (cases c) (simp_all add: select_pipe_def)
qed

lemma trace_set_pipe: "trace (set_pipe nm p w) = trace w"
  by (cases nm) (simp_all add: set_pipe_def)

lemma trace_configure_pipe: "trace (snd (configure_pipe nm sched w)) = trace w"
  by (simp add: configure_pipe_def Let_def trace_set_pipe split: option.splits)

lemma trace_alloc_all: "trace (snd (alloc_all imgs w)) = trace w"
proof (induction imgs arbitrary: w)
  case Nil
  show ?case by simp
next
  case (Cons img imgs)
  show ?case using Cons [of "snd (alloc img w)"]
    by (simp add: split_beta trace_alloc)
qed

lemma trace_call_pipe: "trace (snd (call_pipe L nm args w)) = trace w @ [Diffusion nm]"
  using trace_alloc_all [of _ "emit (Diffusion nm) w"]
  by (simp add: call_pipe_def Let_def emit_def split_beta split: sum.splits)

lemma trace_save_samples: "trace (snd (save_samples i rs w)) = trace w"
proof (induction rs arbitrary: i w)
  case Nil
  show ?case by simp
next
  case (Cons r rs)
  show ?case
    using Cons [of "Suc i" "pil_save r (''/tmp/out-'' @ string_of_nat i @ ''.png'') w"]
    by (simp add: split_beta Let_def pil_save_def)
qed

lemma trace_cleanup:
  "trace (cleanup rq w) =
     trace w @ [Del ''generator'', Del ''final_image'', Del ''control_image'',
                Del ''loaded_image'', Del ''outputs'']
       @ (if mask_path rq \<noteq> None then [Del ''mask_image''] else []) @ [EmptyCache]"
  by (simp add: cleanup_def emit_def Let_def)

lemma predict_trace:
  "\<exists>s sr. s = fst (resolve_seed (seed rq) (entropy w)) \<and> set sr \<subseteq> range SuperResolution \<and>
     ((\<exists>e d. fst (predict L rq w) = Inl e \<and> set d \<subseteq> range Diffusion
          \<and> trace (snd (predict L rq w)) = trace w @ [PrintSeed s] @ sr @ d)
      \<or> (\<exists>paths nm. fst (predict L rq w) = Inr paths
          \<and> trace (snd (predict L rq w)) =
              trace w @ [PrintSeed s] @ sr @ [Diffusion nm]
                @ [Del ''generator'', Del ''final_image'', Del ''control_image'',
                   Del ''loaded_image'', Del ''outputs'']
                @ (if mask_path rq \<noteq> None then [Del ''mask_image''] else []) @ [EmptyCache]))"
proof -
  obtain s src' where rs: "resolve_seed (seed rq) (entropy w) = (s, src')"
    by (cases "resolve_seed (seed rq) (entropy w)")
  have sfst: "s = fst (resolve_seed (seed rq) (entropy w))" using rs by simp
  define w1 where "w1 = emit (PrintSeed s) (w\<lparr>entropy := src'\<rparr>)"
  have t1: "trace w1 = trace w @ [PrintSeed s]" by (simp add: w1_def emit_def)
  obtain x1 w2 where l: "load_image L (image_path rq) w1 = (x1, w2)"
    by (cases "load_image L (image_path rq) w1")
  have t2: "trace w2 = trace w @ [PrintSeed s]"
    using trace_load_image [of L "image_path rq" w1] l t1 by simp
  show ?thesis
  proof (cases x1)
    case (Inl e)
    have "predict L rq w = (Inl e, w2)"
      using rs l Inl by (simp add: predict_def w1_def)
    then show ?thesis using t2 sfst by (intro exI [of _ s] exI [of _ "[]"]) auto
  next
    case (Inr loaded_image)
    obtain x2 w3 where r: "resize_for_condition_image L loaded_image (resolution rq) w2 = (x2, w3)"
      by (cases "resize_for_condition_image L loaded_image (resolution rq) w2")
    obtain sr where sr: "set sr \<subseteq> range SuperResolution" and t3: "trace w3 = trace w @ [PrintSeed s] @ sr"
      using trace_resize [of L loaded_image "resolution rq" w2] r t2 by auto
    show ?thesis
    proof (cases x2)
      case (Inl e)
      have "predict L rq w = (Inl e, w3)"
        using rs l Inr r Inl by (simp add: predict_def w1_def)
      then show ?thesis using t3 sr sfst by (intro exI [of _ s] exI [of _ sr]) auto
    next
      case c: (Inr control_image)
      obtain final_image w4 where h: "create_hdr_effect L control_image (hdr rq) w3 = (final_image, w4)"
        by (cases "create_hdr_effect L control_image (hdr rq) w3")
      have t4: "trace w4 = trace w @ [PrintSeed s] @ sr"
        using trace_create_hdr_effect [of L control_image "hdr rq" w3] h t3 by simp
      define args where "args = \<lparr>prompt_arg = prompt rq, image_arg = final_image,
                   control_image_arg = final_image, strength = creativity rq,
                   controlnet_conditioning_scale = resemblance rq,
                   negative_prompt_arg = negative_prompt rq,
                   guidance_scale_arg = guidance_scale rq, generator = manual_seed s,
                   num_inference_steps = steps rq, guess_mode_arg = guess_mode rq,
                   mask_image_arg = None\<rparr>"
      obtain x3 w5 where sp: "select_pipe L rq loaded_image args w4 = (x3, w5)"
        by (cases "select_pipe L rq loaded_image args w4")
      have t5: "trace w5 = trace w @ [PrintSeed s] @ sr"
        using trace_select_pipe [of L rq loaded_image args w4] sp t4 by simp
      have pre: "predict L rq w =
        (case x3 of Inl e \<Rightarrow> (Inl e, w5)
         | Inr (pipe, args') \<Rightarrow>
            (case configure_pipe pipe (scheduler_name rq) w5 of
               (Inl e, w6) \<Rightarrow> (Inl e, w6)
             | (Inr _, w6) \<Rightarrow>
                (case call_pipe L pipe args' w6 of
                   (Inl e, w7) \<Rightarrow> (Inl e, w7)
                 | (Inr outputs, w7) \<Rightarrow>
                    (let (output_paths, w8) = save_samples 0 outputs w7
                     in (Inr output_paths, cleanup rq w8)))))"
        using rs l Inr r c h sp
        by (simp add: predict_def w1_def args_def Let_def split: sum.splits prod.splits)
      show ?thesis
      proof (cases x3)
        case (Inl e)
        then have "predict L rq w = (Inl e, w5)" using pre by simp
        then show ?thesis using t5 sr sfst by (intro exI [of _ s] exI [of _ sr]) auto
      next
        case p: (Inr pa)
        obtain pipe args' where pa: "pa = (pipe, args')" by (cases pa)
        obtain x4 w6 where cf: "configure_pipe pipe (scheduler_name rq) w5 = (x4, w6)"
          by (cases "configure_pipe pipe (scheduler_name rq) w5")
        have t6: "trace w6 = trace w @ [PrintSeed s] @ sr"
          using trace_configure_pipe [of pipe "scheduler_name rq" w5] cf t5 by simp
        show ?thesis
        proof (cases x4)
          case (Inl e)
          then have "predict L rq w = (Inl e, w6)" using pre p pa cf by simp
          then show ?thesis using t6 sr sfst by (intro exI [of _ s] exI [of _ sr]) auto
        next
          case u: (Inr u)
          obtain x5 w7 where cp: "call_pipe L pipe args' w6 = (x5, w7)"
            by (cases "call_pipe L pipe args' w6")
          have t7: "trace w7 = trace w @ [PrintSeed s] @ sr @ [Diffusion pipe]"
            using trace_call_pipe [of L pipe args' w6] cp t6 by simp
          show ?thesis
          proof (cases x5)
            case (Inl e)
            then have "predict L rq w = (Inl e, w7)" using pre p pa cf u cp by simp
            then have "fst (predict L rq w) = Inl e \<and> set [Diffusion pipe] \<subseteq> range Diffusion
                \<and> trace (snd (predict L rq w)) = trace w @ [PrintSeed s] @ sr @ [Diffusion pipe]"
              using t7 by simp
            then show ?thesis using sr sfst by blast
          next
            case o: (Inr outputs)
            obtain paths w8 where sv: "save_samples 0 outputs w7 = (paths, w8)"
              by (cases "save_samples 0 outputs w7")
            have t8: "trace w8 = trace w @ [PrintSeed s] @ sr @ [Diffusion pipe]"
              using trace_save_samples [of 0 outputs w7] sv t7 by simp
            have "predict L rq w = (Inr paths, cleanup rq w8)"
              using pre p pa cf u cp o sv by simp
            then have "fst (predict L rq w) = Inr paths
                \<and> trace (snd (predict L rq w)) =
                    trace w @ [PrintSeed s] @ sr @ [Diffusion pipe]
                      @ [Del ''generator'', Del ''final_image'', Del ''control_image'',
                         Del ''loaded_image'', Del ''outputs'']
                      @ (if mask_path rq \<noteq> None then [Del ''mask_image''] else []) @ [EmptyCache]"
              using t8 by (simp add: trace_cleanup)
            then show ?thesis using sr sfst by blast
          qed
        qed
      qed
    qed
  qed
qed

section \<open>The steps of \<open>predict\<close> on well-formed inputs\<close>

lemma deref_extended:
  "heap w' = heap w @ xs \<Longrightarrow> r < length (heap w) \<Longrightarrow> deref w' r = deref w r"
  by (simp add: deref_def nth_append)

lemma load_image_ok:
  assumes "p \<noteq> ''/tmp/image.png''" "files w p = Some (ImageFile a)"
  shows "\<exists>r w'. load_image L (Some p) w = (Inr r, w') \<and> r < length (heap w')
      \<and> width (deref w' r) = width a \<and> height (deref w' r) = height a
      \<and> files w' = (files w)(''/tmp/image.png'' \<mapsto> ImageFile a)
      \<and> self w' = self w \<and> trace w' = trace w \<and> (\<exists>xs. heap w' = heap w @ xs)"
  using assms
  by (simp add: load_image_def copyfile_def diffusers_load_image_def pil_convert_def alloc_def
      deref_def nth_append Let_def)

lemma resize_ok:
  fixes L L' :: libs
  assumes r: "r < length (heap w)"
    and wf: "res \<noteq> ''original'' \<longrightarrow>
        0 < width (deref w r) \<and> 0 < height (deref w r)
        \<and> width (deref w r) < 2 ^ 31 \<and> height (deref w r) < 2 ^ 31"
    and models: "ESRGAN_models (self w) = ESRGAN_models (Predictor_setup L')"
  shows "\<exists>r' w'. resize_for_condition_image L r res w = (Inr r', w')
      \<and> files w' = files w \<and> self w' = self w \<and> (\<exists>xs. heap w' = heap w @ xs)
      \<and> trace w' = trace w @ (if res = ''2048'' then [SuperResolution 2] else [])"
proof (cases "res = ''original''")
  case True
  then show ?thesis
    by (simp add: resize_for_condition_image_def pil_copy_def alloc_def)
next
  case False
  then have pos: "0 < width (deref w r)" "0 < height (deref w r)"
    and bnd: "width (deref w r) < 2 ^ 31" "height (deref w r) < 2 ^ 31" using wf by simp_all
  show ?thesis
  proof (cases "res = ''2048''")
    case True
    have m: "ESRGAN_models (self w) 2
       = Some \<lparr>device = ''cuda'', scale = 2, loaded_weights = Some ''weights/RealESRGAN_x2.pth''\<rparr>"
      by (simp add: models setup_models)
    show ?thesis
      using resize_for_condition_image_scaled(2) [OF r pos bnd False True m, of L] True
      by simp
  next
    case n: False
    show ?thesis
      using resize_for_condition_image_scaled(1) [OF r pos bnd False n, of L] n
      by simp
  qed
qed

lemma hdr_ok:
  "\<exists>r' w'. create_hdr_effect L r h w = (r', w')
      \<and> files w' = files w \<and> self w' = self w \<and> trace w' = trace w
      \<and> (\<exists>xs. heap w' = heap w @ xs)"
  by (simp add: create_hdr_effect_def alloc_def Let_def)

lemma predict_mask_rejected:
  fixes L L' :: libs
  assumes img: "image_path rq = Some p" "p \<noteq> ''/tmp/image.png''" "files w p = Some (ImageFile a)"
    and msk: "mask_path rq = Some m" "m \<noteq> ''/tmp/image.png''" "files w m = Some (ImageFile b)"
    and wf: "resolution rq \<noteq> ''original'' \<longrightarrow>
        0 < width a \<and> 0 < height a \<and> width a < 2 ^ 31 \<and> height a < 2 ^ 31"
    and models: "ESRGAN_models (self w) = ESRGAN_models (Predictor_setup L')"
    and bad: "resolution rq \<noteq> ''original'' \<or> image_size b \<noteq> image_size a"
  shows "\<exists>s. fst (predict L rq w) =
           Inl (Exception (if resolution rq \<noteq> ''original''
                           then ''Can't upscale and inpaint at the same time''
                           else ''Image and mask must have the same size''))
      \<and> trace (snd (predict L rq w)) =
           trace w @ [PrintSeed s] @ (if resolution rq = ''2048'' then [SuperResolution 2] else [])"
proof -
  obtain s src' where rs: "resolve_seed (seed rq) (entropy w) = (s, src')"
    by (cases "resolve_seed (seed rq) (entropy w)")
  define w1 where "w1 = emit (PrintSeed s) (w\<lparr>entropy := src'\<rparr>)"
  have w1: "trace w1 = trace w @ [PrintSeed s]" "files w1 = files w" "self w1 = self w"
    by (simp_all add: w1_def emit_def)
  obtain loaded w2 where l: "load_image L (Some p) w1 = (Inr loaded, w2)"
    and l2: "loaded < length (heap w2)"
      "width (deref w2 loaded) = width a" "height (deref w2 loaded) = height a"
    and f2: "files w2 = (files w1)(''/tmp/image.png'' \<mapsto> ImageFile a)"
    and s2: "self w2 = self w1" and t2: "trace w2 = trace w1"
    using load_image_ok [OF img(2), of w1 a L] img(3) w1(2) by auto
  have wf2: "resolution rq \<noteq> ''original'' \<longrightarrow>
        0 < width (deref w2 loaded) \<and> 0 < height (deref w2 loaded)
        \<and> width (deref w2 loaded) < 2 ^ 31 \<and> height (deref w2 loaded) < 2 ^ 31"
    using wf l2 by simp
  have m2: "ESRGAN_models (self w2) = ESRGAN_models (Predictor_setup L')"
    using models s2 w1 by simp
  obtain control w3 xs3 where r: "resize_for_condition_image L loaded (resolution rq) w2 = (Inr control, w3)"
    and f3: "files w3 = files w2" and h3: "heap w3 = heap w2 @ xs3"
    and t3: "trace w3 = trace w2 @ (if resolution rq = ''2048'' then [SuperResolution 2] else [])"
    using resize_ok [OF l2(1) wf2 m2, of L] by auto
  obtain final w4 xs4 where h: "create_hdr_effect L control (hdr rq) w3 = (final, w4)"
    and f4: "files w4 = files w3" and h4: "heap w4 = heap w3 @ xs4" and t4: "trace w4 = trace w3"
    using hdr_ok [of L control "hdr rq" w3] by auto
  have fm: "files w4 m = Some (ImageFile b)" using f4 f3 f2 w1 msk by simp
  obtain mask_image w5 xs5 where lm: "load_image L (Some m) w4 = (Inr mask_image, w5)"
    and m5: "width (deref w5 mask_image) = width b" "height (deref w5 mask_image) = height b"
    and h5: "heap w5 = heap w4 @ xs5" and t5: "trace w5 = trace w4"
    using load_image_ok [OF msk(2) fm, of L] by auto
  have "heap w5 = heap w2 @ (xs3 @ xs4 @ xs5)" using h3 h4 h5 by simp
  then have d5: "deref w5 loaded = deref w2 loaded" using l2(1) by (rule deref_extended)
  have sz: "image_size (deref w5 mask_image) = image_size b"
    "image_size (deref w5 loaded) = image_size a"
    using m5 l2 d5 by (simp_all add: image_size_def)
  define args where "args = \<lparr>prompt_arg = prompt rq, image_arg = final,
                   control_image_arg = final, strength = creativity rq,
                   controlnet_conditioning_scale = resemblance rq,
                   negative_prompt_arg = negative_prompt rq,
                   guidance_scale_arg = guidance_scale rq, generator = manual_seed s,
                   num_inference_steps = steps rq, guess_mode_arg = guess_mode rq,
                   mask_image_arg = None\<rparr>"
  have sel: "select_pipe L rq loaded args w4 =
      (Inl (Exception (if resolution rq \<noteq> ''original''
                           then ''Can't upscale and inpaint at the same time''
                           else ''Image and mask must have the same size'')), w5)"
    using msk(1) lm sz bad by (simp add: select_pipe_def)
  have "predict L rq w =
      (Inl (Exception (if resolution rq \<noteq> ''original''
                           then ''Can't upscale and inpaint at the same time''
                           else ''Image and mask must have the same size'')), w5)"
    using rs img(1) l r h sel
    by (simp add: predict_def w1_def [symmetric] args_def [symmetric] Let_def)
  moreover have "trace w5 = trace w @ [PrintSeed s]
      @ (if resolution rq = ''2048'' then [SuperResolution 2] else [])"
    using t5 t4 t3 t2 w1 by simp
  ultimately show ?thesis by auto
qed

lemma call_pipe_ok:
  assumes "run_pipeline L (get_pipe nm (emit (Diffusion nm) w)) args (heap (emit (Diffusion nm) w)) = Inr imgs"
  shows "\<exists>rs w'. call_pipe L nm args w = (Inr rs, w')"
  using assms by (simp add: call_pipe_def Let_def split_beta)

lemma predict_succeeds:
  fixes L L' :: libs
  assumes img: "image_path rq = Some p" "p \<noteq> ''/tmp/image.png''" "files w p = Some (ImageFile a)"
    and msk: "mask_path rq = None"
    and wf: "resolution rq \<noteq> ''original'' \<longrightarrow>
        0 < width a \<and> 0 < height a \<and> width a < 2 ^ 31 \<and> height a < 2 ^ 31"
    and models: "ESRGAN_models (self w) = ESRGAN_models (Predictor_setup L')"
    and sched: "scheduler_name rq \<in> set SCHEDULERS_keys"
    and lib: "\<forall>pipe args store. \<exists>imgs. run_pipeline L pipe args store = Inr imgs"
  shows "\<exists>paths. fst (predict L rq w) = Inr paths"
proof -
  obtain s src' where rs: "resolve_seed (seed rq) (entropy w) = (s, src')"
    by (cases "resolve_seed (seed rq) (entropy w)")
  define w1 where "w1 = emit (PrintSeed s) (w\<lparr>entropy := src'\<rparr>)"
  have w1: "files w1 = files w" "self w1 = self w"
    by (simp_all add: w1_def emit_def)
  obtain loaded w2 where l: "load_image L (Some p) w1 = (Inr loaded, w2)"
    and l2: "loaded < length (heap w2)"
      "width (deref w2 loaded) = width a" "height (deref w2 loaded) = height a"
    and s2: "self w2 = self w1"
    using load_image_ok [OF img(2), of w1 a L] img(3) w1(1) by auto
  have wf2: "resolution rq \<noteq> ''original'' \<longrightarrow>
        0 < width (deref w2 loaded) \<and> 0 < height (deref w2 loaded)
        \<and> width (deref w2 loaded) < 2 ^ 31 \<and> height (deref w2 loaded) < 2 ^ 31"
    using wf l2 by simp
  have m2: "ESRGAN_models (self w2) = ESRGAN_models (Predictor_setup L')"
    using models s2 w1 by simp
  obtain control w3 where r: "resize_for_condition_image L loaded (resolution rq) w2 = (Inr control, w3)"
    using resize_ok [OF l2(1) wf2 m2, of L] by auto
  obtain final w4 where h: "create_hdr_effect L control (hdr rq) w3 = (final, w4)"
    by (cases "create_hdr_effect L control (hdr rq) w3")
  define args where "args = \<lparr>prompt_arg = prompt rq, image_arg = final,
                   control_image_arg = final, strength = creativity rq,
                   controlnet_conditioning_scale = resemblance rq,
                   negative_prompt_arg = negative_prompt rq,
                   guidance_scale_arg = guidance_scale rq, generator = manual_seed s,
                   num_inference_steps = steps rq, guess_mode_arg = guess_mode rq,
                   mask_image_arg = None\<rparr>"
  have sel: "select_pipe L rq loaded args w4 = (Inr (Img2Img, args), w4)"
    using msk by (simp add: select_pipe_def)
  obtain cls where cls: "SCHEDULERS (scheduler_name rq) = Some cls"
    using sched SCHEDULERS_dom [of "scheduler_name rq"] by auto
  obtain w6 where cf: "configure_pipe Img2Img (scheduler_name rq) w4 = (Inr (), w6)"
    using configure_pipe_Some(1) [OF cls, of Img2Img w4]
    by (cases "configure_pipe Img2Img (scheduler_name rq) w4") simp
  obtain imgs where "run_pipeline L (get_pipe Img2Img (emit (Diffusion Img2Img) w6)) args
      (heap (emit (Diffusion Img2Img) w6)) = Inr imgs"
    using lib by blast
  then obtain outputs w7 where cp: "call_pipe L Img2Img args w6 = (Inr outputs, w7)"
    using call_pipe_ok by blast
  obtain paths w8 where sv: "save_samples 0 outputs w7 = (paths, w8)"
    by (cases "save_samples 0 outputs w7")
  have "predict L rq w = (Inr paths, cleanup rq w8)"
    using rs img(1) l r h sel cf cp sv
    by (simp add: predict_def w1_def [symmetric] args_def [symmetric] Let_def)
  then show ?thesis by simp
qed

lemma example_files:
  "files example_world ''/in/image.png'' = Some (ImageFile example_image)"
  "files example_world ''/in/mask.png'' = Some (ImageFile example_mask)"
  by (simp_all add: example_world_def)

lemma example_trace: "trace example_world = []"
  by (simp add: example_world_def)

lemma example_sizes:
  "image_size example_mask \<noteq> image_size example_image"
  "0 < width example_image \<and> 0 < height example_image
   \<and> width example_image < 2 ^ 31 \<and> height example_image < 2 ^ 31"
  by (simp_all add: image_size_def example_mask_def example_image_def)

lemma example_request_fields:
  "image_path example_request = Some ''/in/image.png''"
  "mask_path example_request = None"
  "resolution example_request = ''original''"
  "scheduler_name example_request \<in> set SCHEDULERS_keys"
  by (simp_all add: example_request_def SCHEDULERS_keys_def)

lemma example_pipeline_returns:
  "\<forall>pipe args store. \<exists>imgs. run_pipeline example_libs pipe args store = Inr imgs"
  by (simp add: example_libs_def)

section \<open>Rejected requests\<close>

lemma no_diffusion_in:
  "\<forall>nm. Diffusion nm \<notin> set ([PrintSeed s] @ (if c then [SuperResolution 2] else []))"
  by simp






section \<open>Cleanup\<close>

lemma no_cleanup_events:
  assumes "set sr \<subseteq> range SuperResolution" "set d \<subseteq> range Diffusion"
  shows "EmptyCache \<notin> set ([PrintSeed s] @ sr @ d)" "Del x \<notin> set ([PrintSeed s] @ sr @ d)"
  using assms by auto

text \<open>
  C4, as amended. When \<open>predict\<close> returns, the last statements it has executed are the
  \<open>del\<close> of the generator, the final image, the conditioning image, the loaded image and
  the outputs (and of the mask when the request has one), then the reclaiming of the
  device cache; none of them has run earlier in the call. When \<open>predict\<close> raises, none of
  them has run.
\<close>

theorem cleanup_only_on_success:
  "(\<forall>paths. fst (predict L rq w) = Inr paths \<longrightarrow>
      (\<exists>evs. trace (snd (predict L rq w)) =
          trace w @ evs
            @ [Del ''generator'', Del ''final_image'', Del ''control_image'',
               Del ''loaded_image'', Del ''outputs'']
            @ (if mask_path rq \<noteq> None then [Del ''mask_image''] else []) @ [EmptyCache]
        \<and> EmptyCache \<notin> set evs \<and> (\<forall>x. Del x \<notin> set evs)))
   \<and> (\<forall>e. fst (predict L rq w) = Inl e \<longrightarrow>
      (\<exists>evs. trace (snd (predict L rq w)) = trace w @ evs
        \<and> EmptyCache \<notin> set evs \<and> (\<forall>x. Del x \<notin> set evs)))"
proof -
  obtain s sr where sr: "set sr \<subseteq> range SuperResolution"
    and cases: "(\<exists>e d. fst (predict L rq w) = Inl e \<and> set d \<subseteq> range Diffusion
          \<and> trace (snd (predict L rq w)) = trace w @ [PrintSeed s] @ sr @ d)
      \<or> (\<exists>paths nm. fst (predict L rq w) = Inr paths
          \<and> trace (snd (predict L rq w)) =
              trace w @ [PrintSeed s] @ sr @ [Diffusion nm]
                @ [Del ''generator'', Del ''final_image'', Del ''control_image'',
                   Del ''loaded_image'', Del ''outputs'']
                @ (if mask_path rq \<noteq> None then [Del ''mask_image''] else []) @ [EmptyCache])"
    using predict_trace [where L = L and rq = rq and w = w] by blast
  from cases show ?thesis
  proof
    assume "\<exists>e d. fst (predict L rq w) = Inl e \<and> set d \<subseteq> range Diffusion
          \<and> trace (snd (predict L rq w)) = trace w @ [PrintSeed s] @ sr @ d"
    then obtain e d where e: "fst (predict L rq w) = Inl e" and d: "set d \<subseteq> range Diffusion"
      and t: "trace (snd (predict L rq w)) = trace w @ ([PrintSeed s] @ sr @ d)" by auto
    have "EmptyCache \<notin> set ([PrintSeed s] @ sr @ d) \<and> (\<forall>x. Del x \<notin> set ([PrintSeed s] @ sr @ d))"
      using no_cleanup_events [OF sr d] by blast
    then have "\<exists>evs. trace (snd (predict L rq w)) = trace w @ evs
        \<and> EmptyCache \<notin> set evs \<and> (\<forall>x. Del x \<notin> set evs)"
      using t by blast
    then show ?thesis using e by simp
  next
    assume "\<exists>paths nm. fst (predict L rq w) = Inr paths
          \<and> trace (snd (predict L rq w)) =
              trace w @ [PrintSeed s] @ sr @ [Diffusion nm]
                @ [Del ''generator'', Del ''final_image'', Del ''control_image'',
                   Del ''loaded_image'', Del ''outputs'']
                @ (if mask_path rq \<noteq> None then [Del ''mask_image''] else []) @ [EmptyCache]"
    then obtain paths nm where p: "fst (predict L rq w) = Inr paths"
      and t: "trace (snd (predict L rq w)) =
              trace w @ ([PrintSeed s] @ sr @ [Diffusion nm])
                @ [Del ''generator'', Del ''final_image'', Del ''control_image'',
                   Del ''loaded_image'', Del ''outputs'']
                @ (if mask_path rq \<noteq> None then [Del ''mask_image''] else []) @ [EmptyCache]"
      by auto
    have "set [Diffusion nm] \<subseteq> range Diffusion" by simp
    then have "EmptyCache \<notin> set ([PrintSeed s] @ sr @ [Diffusion nm])
        \<and> (\<forall>x. Del x \<notin> set ([PrintSeed s] @ sr @ [Diffusion nm]))"
      using no_cleanup_events [OF sr, of "[Diffusion nm]"] by blast
    then have "\<exists>evs. trace (snd (predict L rq w)) =
          trace w @ evs
            @ [Del ''generator'', Del ''final_image'', Del ''control_image'',
               Del ''loaded_image'', Del ''outputs'']
            @ (if mask_path rq \<noteq> None then [Del ''mask_image''] else []) @ [EmptyCache]
        \<and> EmptyCache \<notin> set evs \<and> (\<forall>x. Del x \<notin> set evs)"
      using t by blast
    then show ?thesis using p by simp
  qed
qed

theorem cleanup_only_on_success_witness:
  "(\<exists>paths evs. fst (predict example_libs example_request example_world) = Inr paths
      \<and> trace (snd (predict example_libs example_request example_world)) =
          evs @ [Del ''generator'', Del ''final_image'', Del ''control_image'',
                 Del ''loaded_image'', Del ''outputs'', EmptyCache]
      \<and> EmptyCache \<notin> set evs)
   \<and> (\<exists>e evs. fst (predict example_libs
          (example_request\<lparr>image_path := Some ''/in/missing.png''\<rparr>) example_world) = Inl e
      \<and> trace (snd (predict example_libs
          (example_request\<lparr>image_path := Some ''/in/missing.png''\<rparr>) example_world)) = evs
      \<and> EmptyCache \<notin> set evs)"
proof -
  have h: "''/in/image.png'' \<noteq> ''/tmp/image.png''"
    "resolution example_request \<noteq> ''original'' \<longrightarrow>
        0 < width example_image \<and> 0 < height example_image
        \<and> width example_image < 2 ^ 31 \<and> height example_image < 2 ^ 31"
    by (simp_all add: example_request_fields)
  obtain paths where p: "fst (predict example_libs example_request example_world) = Inr paths"
    using predict_succeeds [OF example_request_fields(1) h(1) example_files(1)
        example_request_fields(2) h(2) example_store(3) example_request_fields(4)
        example_pipeline_returns] by blast
  have a: "\<exists>paths evs. fst (predict example_libs example_request example_world) = Inr paths
      \<and> trace (snd (predict example_libs example_request example_world)) =
          evs @ [Del ''generator'', Del ''final_image'', Del ''control_image'',
                 Del ''loaded_image'', Del ''outputs'', EmptyCache]
      \<and> EmptyCache \<notin> set evs"
    using cleanup_only_on_success [of example_libs example_request example_world,
        THEN conjunct1, THEN spec, THEN mp, OF p] p
    by (simp add: example_trace example_request_fields) blast
  let ?rq = "example_request\<lparr>image_path := Some ''/in/missing.png''\<rparr>"
  have "fst (predict example_libs ?rq example_world) = Inl (FileNotFoundError ''/in/missing.png'')"
    by (simp add: predict_def load_image_def copyfile_def example_world_def emit_def
        split: prod.splits)
  then have b: "\<exists>e evs. fst (predict example_libs ?rq example_world) = Inl e
      \<and> trace (snd (predict example_libs ?rq example_world)) = evs
      \<and> EmptyCache \<notin> set evs"
    using cleanup_only_on_success [of example_libs ?rq example_world,
        THEN conjunct2, THEN spec, THEN mp]
    by (auto simp add: example_trace)
  show ?thesis using a b by blast
qed

text \<open>
  The claim as stated fails on the failure path: a request rejected for its mask leaves
  \<open>predict\<close> without the cache being reclaimed and without any \<open>del\<close>.
\<close>

theorem no_cleanup_on_failure_counterexample:
  "fst (predict example_libs (example_request\<lparr>mask_path := Some ''/in/mask.png''\<rparr>) example_world)
     = Inl (Exception ''Image and mask must have the same size'')
   \<and> EmptyCache \<notin> set (trace (snd (predict example_libs
          (example_request\<lparr>mask_path := Some ''/in/mask.png''\<rparr>) example_world)))
   \<and> Del ''mask_image'' \<notin> set (trace (snd (predict example_libs
          (example_request\<lparr>mask_path := Some ''/in/mask.png''\<rparr>) example_world)))"
proof -
  let ?rq = "example_request\<lparr>mask_path := Some ''/in/mask.png''\<rparr>"
  have h: "image_path ?rq = Some ''/in/image.png''" "''/in/image.png'' \<noteq> ''/tmp/image.png''"
    "mask_path ?rq = Some ''/in/mask.png''" "''/in/mask.png'' \<noteq> ''/tmp/image.png''"
    "resolution ?rq \<noteq> ''original'' \<longrightarrow>
        0 < width example_image \<and> 0 < height example_image
        \<and> width example_image < 2 ^ 31 \<and> height example_image < 2 ^ 31"
    "resolution ?rq \<noteq> ''original'' \<or> image_size example_mask \<noteq> image_size example_image"
    using example_sizes by (simp_all add: example_request_fields)
  show ?thesis
    using predict_mask_rejected [OF h(1,2) example_files(1) h(3,4) example_files(2)
        h(5) example_store(3) h(6), of example_libs]
    by (auto simp add: example_trace example_request_fields)
qed


section \<open>The derived seed\<close>

lemma resolve_seed_advances: "snd (resolve_seed None src) = (\<lambda>k. src (k + 2))"
  by (simp add: resolve_seed_def os_urandom_def)

lemma predict_prints_seed:
  "\<exists>evs. trace (snd (predict L rq w)) =
     trace w @ PrintSeed (fst (resolve_seed (seed rq) (entropy w))) # evs"
  using predict_trace [where L = L and rq = rq and w = w] by auto

text \<open>
  C10. When the request has no seed, \<open>predict\<close> takes exactly two bytes from the entropy
  source and uses their big-endian integer as the seed, the one it prints: it lies between
  0 and 65535, every value in that range is the seed for some state of the source, and so
  exactly 65536 derived seeds are possible.
\<close>

theorem derived_seed_range:
  "0 \<le> fst (resolve_seed None src) \<and> fst (resolve_seed None src) \<le> 65535
   \<and> fst (resolve_seed None src) = from_bytes_big (fst (os_urandom 2 src))
   \<and> length (fst (os_urandom 2 src)) = 2
   \<and> snd (resolve_seed None src) = (\<lambda>k. src (k + 2))
   \<and> range (\<lambda>src. fst (resolve_seed None src)) = {0..65535}
   \<and> card (range (\<lambda>src. fst (resolve_seed None src))) = 65536
   \<and> (seed rq = None \<longrightarrow>
        (\<exists>evs. trace (snd (predict L rq w)) =
           trace w @ PrintSeed (from_bytes_big (fst (os_urandom 2 (entropy w)))) # evs))"
proof -
  have b: "0 \<le> fst (resolve_seed None s)" "fst (resolve_seed None s) \<le> 65535" for s
    using uint_byte_bounds [of "s 0"] uint_byte_bounds [of "s 1"]
    by (simp_all add: resolve_seed_None)
  have r: "range (\<lambda>src. fst (resolve_seed None src)) = {0..65535}"
  proof (rule set_eqI, rule iffI)
    fix s assume "s \<in> range (\<lambda>src. fst (resolve_seed None src))"
    then show "s \<in> {0..65535}" using b by auto
  next
    fix s :: int assume "s \<in> {0..65535}"
    then obtain src where "fst (resolve_seed None src) = s"
      using resolve_seed_onto [of s] by auto
    then show "s \<in> range (\<lambda>src. fst (resolve_seed None src))" by (metis rangeI)
  qed
  have e: "fst (resolve_seed None src) = from_bytes_big (fst (os_urandom 2 src))" for src
    by (simp add: resolve_seed_def split: prod.splits)
  have l: "length (fst (os_urandom 2 src)) = 2" by (simp add: os_urandom_def)
  have p: "\<exists>evs. trace (snd (predict L rq w)) =
           trace w @ PrintSeed (from_bytes_big (fst (os_urandom 2 (entropy w)))) # evs"
    if "seed rq = None"
    using predict_prints_seed [of L rq w] that e [of "entropy w"] by simp
  show ?thesis using b [of src] r e [of src] l resolve_seed_advances [of src] p by simp
qed

theorem derived_seed_range_witness:
  "seed (example_request\<lparr>seed := None\<rparr>) = None
   \<and> (\<exists>evs. trace (snd (predict example_libs (example_request\<lparr>seed := None\<rparr>) example_world)) =
         PrintSeed 1799 # evs)"
proof -
  have h: "seed (example_request\<lparr>seed := None\<rparr>) = None" by simp
  note t = derived_seed_range [of "entropy example_world" "example_request\<lparr>seed := None\<rparr>"
        example_libs example_world]
  have "fst (resolve_seed None (entropy example_world)) = 1799"
    by (simp add: resolve_seed_None example_world_def)
  then have v: "from_bytes_big (fst (os_urandom 2 (entropy example_world))) = 1799"
    using t by simp
  have "\<exists>evs. trace (snd (predict example_libs (example_request\<lparr>seed := None\<rparr>) example_world)) =
      trace example_world @ PrintSeed (from_bytes_big (fst (os_urandom 2 (entropy example_world)))) # evs"
    using derived_seed_range [of "entropy example_world" "example_request\<lparr>seed := None\<rparr>"
        example_libs example_world] h by blast
  then show ?thesis using h v by (simp add: example_trace)
qed

end
